theory Spec2Isabelle
  imports Complex_Main "HOL-Library.Sublist"
begin

section \<open>Python strings\<close>

text \<open>
  A Python \<open>str\<close> is modelled as a \<open>string\<close>; each \<open>char\<close> stands for one code point
  in the range U+0000 .. U+00FF. Every literal of \<open>main.py\<close> that the modelled functions
  use is ASCII. The apostrophe is written \<open>CHR 0x27\<close> where it begins or ends a literal,
  the newline is \<open>CHR 0x0A\<close>.
\<close>

definition isspace :: "char \<Rightarrow> bool" where
  \<comment> \<open>\<open>str.isspace\<close> on one character: the code points below 256 that Python counts as
      whitespace.\<close>
  "isspace c = (of_char c \<in> set [9, 10, 11, 12, 13, 28, 29, 30, 31, 32, 133, 160 :: nat])"

definition lstrip :: "string \<Rightarrow> string" where
  "lstrip s = dropWhile isspace s"

definition rstrip :: "string \<Rightarrow> string" where
  "rstrip s = rev (dropWhile isspace (rev s))"

definition strip :: "string \<Rightarrow> string" where
  \<comment> \<open>\<open>s.strip()\<close>: leading and trailing whitespace removed.\<close>
  "strip s = rstrip (lstrip s)"

definition lower_char :: "char \<Rightarrow> char" where
  \<comment> \<open>\<open>str.lower\<close> on one code point below 256: A-Z and the accented capitals
      U+00C0 .. U+00DE (the multiplication sign U+00D7 apart) move up by 32.\<close>
  "lower_char c =
     (let n = (of_char c :: nat)
      in if (65 \<le> n \<and> n \<le> 90) \<or> (192 \<le> n \<and> n \<le> 222 \<and> n \<noteq> 215)
         then char_of (n + 32) else c)"

definition lower :: "string \<Rightarrow> string" where
  "lower s = map lower_char s"

fun join_str :: "string \<Rightarrow> string list \<Rightarrow> string" where
  \<comment> \<open>\<open>sep.join(xs)\<close>\<close>
  "join_str sep [] = []"
| "join_str sep [x] = x"
| "join_str sep (x # y # ys) = x @ sep @ join_str sep (y # ys)"

section \<open>The system prompt (\<open>create_system_prompt\<close>)\<close>

definition not_specified :: string where
  "not_specified = ''Not specified''"

definition persona_sentences :: "string list" where
  \<comment> \<open>the initial value of \<open>prompt_lines\<close>\<close>
  "persona_sentences =
    [''You are a helpful, empathetic, and knowledgeable AI assistant specializing in providing personalized parenting tips and advice.'',
     ''Your tone should be supportive, understanding, and non-judgmental.'',
     ''Focus on practical, actionable suggestions and positive reinforcement techniques.'',
     ''Avoid overly technical jargon unless explaining a specific concept clearly.'',
     ''Respond concisely but thoroughly to user questions about parenting challenges and strategies.'']"

definition age_intro :: string where
  "age_intro = ''The user is specifically asking for advice related to a child in the ''"

definition age_outro :: string where
  "age_outro = '' age range. Tailor your advice significantly based on this developmental stage.''"

definition age_sentence :: "string \<Rightarrow> string" where
  \<comment> \<open>the f-string appended when an age range is given\<close>
  "age_sentence child_age_range = age_intro @ child_age_range @ age_outro"

definition fallback_sentence :: string where
  "fallback_sentence =
     ''The user has not specified a child's age range, so provide general advice or ask for clarification if age is crucial for the specific question.''"

definition traits_intro :: string where
  "traits_intro = ''The child's temperament is described as: ''"

definition traits_outro :: string where
  "traits_outro =
     ''. Keep these traits in mind when suggesting communication styles, activities, and discipline strategies.''"

definition traits_sentence :: "string \<Rightarrow> string" where
  \<comment> \<open>the f-string appended when traits were selected\<close>
  "traits_sentence traits_string = traits_intro @ traits_string @ traits_outro"

definition challenges_intro :: string where
  "challenges_intro =
     ''The parent mentioned they are currently focusing on or facing challenges with: '' @ [CHR 0x27]"

definition challenges_outro :: string where
  "challenges_outro =
     [CHR 0x27] @ ''. Try to address this area proactively if relevant to the user's questions, or use it as context for your advice.''"

definition challenges_sentence :: "string \<Rightarrow> string" where
  \<comment> \<open>the f-string appended when challenges were entered; its argument is the stripped text\<close>
  "challenges_sentence stripped = challenges_intro @ stripped @ challenges_outro"

definition safety_sentence :: string where
  "safety_sentence =
     ''Always prioritize safety and well-being in your advice. If a topic seems potentially serious (e.g., medical issues, severe behavioral problems), gently suggest consulting a professional (pediatrician, therapist, etc.).''"

definition prompt_lines :: "string option \<Rightarrow> string list \<Rightarrow> string \<Rightarrow> string list" where
  \<comment> \<open>the list \<open>prompt_lines\<close> as it stands before the final join; \<open>child_age_range\<close> is
      \<open>None\<close> or a \<open>str\<close>, and a \<open>None\<close> or an empty \<open>str\<close> is falsy\<close>
  "prompt_lines child_age_range temperament_traits current_challenges =
     persona_sentences
     @ (case child_age_range of
          None \<Rightarrow> [fallback_sentence]
        | Some a \<Rightarrow>
            if a \<noteq> [] \<and> a \<noteq> not_specified then [age_sentence a] else [fallback_sentence])
     @ (if temperament_traits \<noteq> []
        then [traits_sentence (join_str '', '' temperament_traits)] else [])
     @ (if current_challenges \<noteq> [] \<and> strip current_challenges \<noteq> []
        then [challenges_sentence (strip current_challenges)] else [])
     @ [safety_sentence]"

definition create_system_prompt :: "string option \<Rightarrow> string list \<Rightarrow> string \<Rightarrow> string" where
  "create_system_prompt child_age_range temperament_traits current_challenges =
     join_str [CHR 0x0A] (prompt_lines child_age_range temperament_traits current_challenges)"

section \<open>Session state, the remote service and what the page shows\<close>

record message =
  role :: string
  content :: string

datatype client = Groq string
  \<comment> \<open>\<open>Groq(api_key=api_key)\<close>\<close>

record session_state =
  form_completed :: bool
  child_age :: "string option"
  child_temperament :: "string list"
  current_challenges :: string
  messages :: "message list"
  client :: "client option"

definition initial_state :: session_state where
  \<comment> \<open>what the script stores when \<open>form_completed\<close> is not yet in the session state\<close>
  "initial_state =
     \<lparr>form_completed = False, child_age = None, child_temperament = [],
      current_challenges = [], messages = [], client = None\<rparr>"

record request =
  req_messages :: "message list"
  req_model :: string
  temperature :: rat
  max_tokens :: int
  top_p :: int
  stop :: "string option"
  stream :: bool

datatype completion =
    Raises string
  | Returns "string option"
  \<comment> \<open>\<open>Raises e\<close>: an exception with text \<open>e\<close> inside the \<open>try\<close> of \<open>get_groq_response\<close>;
      \<open>Returns c\<close>: \<open>chat_completion.choices[0].message.content\<close> is \<open>c\<close> (a \<open>str\<close> or \<open>None\<close>)\<close>

datatype secrets =
    NoSecretsFile string
  | SecretsFile "string option"
  \<comment> \<open>\<open>st.secrets\<close>: with no secrets file, looking a key up raises (the exception's text);
      with a file, the entry under \<open>GROQ_API_KEY\<close>, if there is one\<close>

record env =
  environ_key :: "string option"
  st_secrets :: secrets
  models_list :: "client \<Rightarrow> string option"
  completions_create :: "client \<Rightarrow> request \<Rightarrow> completion"

text \<open>
  The surroundings of one run of the script: \<open>environ_key\<close> is
  \<open>os.environ.get("GROQ_API_KEY")\<close>, \<open>st_secrets\<close> is what \<open>st.secrets\<close> holds,
  \<open>models_list c\<close> is \<open>None\<close> when constructing \<open>c\<close> and \<open>c.models.list()\<close>
  return and \<open>Some e\<close> when one of them raises \<open>e\<close>, and \<open>completions_create c r\<close> is
  the outcome of \<open>c.chat.completions.create\<close> on the request \<open>r\<close>.
\<close>

datatype ui =
    Info string
  | Success string
  | Error string
  | Caption string
  | ChatMessage string string
  | Uncaught string
  \<comment> \<open>\<open>st.info\<close>, \<open>st.success\<close>, \<open>st.error\<close>, \<open>st.caption\<close>,
      \<open>st.markdown\<close> inside \<open>st.chat_message(role)\<close>, and the exception the page shows
      when nothing in the script catches it\<close>

datatype 'a control = Returned 'a | Stopped
  \<comment> \<open>\<open>Stopped\<close>: the run went no further, at \<open>st.stop()\<close> or at an exception that
      nothing catches\<close>

definition DEFAULT_MODEL :: string where
  "DEFAULT_MODEL = ''llama3-8b-8192''"

definition connect_with_key :: "env \<Rightarrow> string option \<Rightarrow> client control \<times> ui list" where
  \<comment> \<open>\<open>initialize_groq_client\<close> from \<open>if not api_key\<close> on\<close>
  "connect_with_key e api_key =
     (case api_key of
        None \<Rightarrow> (Stopped, [Error ''Groq API key not found. Please set GROQ_API_KEY in your environment variables or Streamlit secrets.''])
      | Some k \<Rightarrow>
          if k = []
          then (Stopped, [Error ''Groq API key not found. Please set GROQ_API_KEY in your environment variables or Streamlit secrets.''])
          else (case models_list e (Groq k) of
                  None \<Rightarrow> (Returned (Groq k), [])
                | Some err \<Rightarrow>
                    (Stopped, [Error (''Failed to initialize or connect with Groq client: '' @ err)])))"

definition initialize_groq_client :: "env \<Rightarrow> client control \<times> ui list" where
  \<comment> \<open>\<open>st.secrets\<close> is looked into only when the environment gives no key; with no
      secrets file that look-up raises, outside any \<open>try\<close>\<close>
  "initialize_groq_client e =
     (let api_key = environ_key e
      in if api_key = None \<or> api_key = Some []
         then (case st_secrets e of
                 NoSecretsFile err \<Rightarrow> (Stopped, [Uncaught err])
               | SecretsFile entry \<Rightarrow>
                   connect_with_key e (if entry \<noteq> None then entry else api_key))
         else connect_with_key e api_key)"

definition completion_request :: "message list \<Rightarrow> string \<Rightarrow> request" where
  \<comment> \<open>the arguments of \<open>client.chat.completions.create\<close>; the literal \<open>0.7\<close> is kept as
      the decimal fraction it denotes\<close>
  "completion_request msgs model =
     \<lparr>req_messages = msgs, req_model = model, temperature = 7 / 10, max_tokens = 1500,
      top_p = 1, stop = None, stream = False\<rparr>"

definition get_groq_response ::
  "env \<Rightarrow> client \<Rightarrow> message list \<Rightarrow> string \<Rightarrow> string option \<times> ui list \<times> request list" where
  \<comment> \<open>the response, what \<open>st.error\<close> showed, and the calls made to the service\<close>
  "get_groq_response e c msgs model =
     (let req = completion_request msgs model
      in case completions_create e c req of
           Returns chat_content \<Rightarrow> (chat_content, [], [req])
         | Raises err \<Rightarrow>
             (None, [Error (''An error occurred while communicating with Groq: '' @ err)], [req]))"

section \<open>One run of the script\<close>

definition age_options :: "string list" where
  "age_options =
     [''Not specified'', ''Newborn (0-3 months)'', ''Infant (3-12 months)'',
      ''Toddler (1-3 years)'', ''Preschooler (3-5 years)'',
      ''School-Age (6-12 years)'', ''Teenager (13+ years)'']"


datatype event =
    NoInteraction
  | FormSubmit string "string list" string
  | ChatInput string
  | ResetClick
  \<comment> \<open>what set the run off: nothing (a first load or \<open>st.rerun()\<close>), the form's submit
      button with the three widget values, a text sent through \<open>st.chat_input\<close>, or the
      sidebar button\<close>

datatype ending = Completed | Halted | RerunRequested
  \<comment> \<open>the run reached the end of the script, went no further (\<open>st.stop()\<close> or an
      exception that nothing catches), or met \<open>st.rerun()\<close>\<close>

record run =
  state :: session_state
  shown :: "ui list"
  sent :: "request list"
  ending :: ending

definition welcome_message_parts :: "session_state \<Rightarrow> string list" where
  "welcome_message_parts s =
     [''Hello! I'm ready to help with parenting tips'']
     @ (case child_age s of
          None \<Rightarrow> []
        | Some a \<Rightarrow> if a \<noteq> [] \<and> a \<noteq> not_specified then [''for your '' @ lower a] else [])
     @ (if child_temperament s \<noteq> []
        then ['' (described as '' @ lower (join_str '', '' (child_temperament s)) @ '')'']
        else [])
     @ [''.'']
     @ (if current_challenges s \<noteq> [] \<and> strip (current_challenges s) \<noteq> []
        then ['' I see you're interested in '' @ [CHR 0x27] @ strip (current_challenges s)
                @ [CHR 0x27] @ ''.'']
        else [])
     @ ['' How can I assist you today?'']"

definition initialize_chat_history :: "session_state \<Rightarrow> session_state" where
  \<comment> \<open>the block under \<open>if not st.session_state.messages\<close>\<close>
  "initialize_chat_history s =
     (if messages s = []
      then s\<lparr>messages :=
               [\<lparr>role = ''system'',
                 content = create_system_prompt (child_age s) (child_temperament s)
                             (current_challenges s)\<rparr>,
                \<lparr>role = ''assistant'', content = join_str '' '' (welcome_message_parts s)\<rparr>]\<rparr>
      else s)"

definition context_summary :: "session_state \<Rightarrow> string" where
  "context_summary s =
     ''Child Age: '' @ (case child_age s of None \<Rightarrow> ''None'' | Some a \<Rightarrow> a)
     @ (if child_temperament s \<noteq> []
        then '' | Temperament: '' @ join_str '', '' (child_temperament s) else [])
     @ (if current_challenges s \<noteq> [] \<and> strip (current_challenges s) \<noteq> []
        then '' | Focus: '' @ take 50 (strip (current_challenges s)) @ ''...'' else [])"

definition handle_user_input ::
  "env \<Rightarrow> client \<Rightarrow> string \<Rightarrow> session_state \<Rightarrow> session_state \<times> ui list \<times> request list" where
  \<comment> \<open>the block under \<open>if prompt\<close>, entered with a non-empty \<open>prompt\<close>\<close>
  "handle_user_input e c prompt s =
     (let s1 = s\<lparr>messages := messages s @ [\<lparr>role = ''user'', content = prompt\<rparr>]\<rparr>;
          (assistant_response, errors, reqs) = get_groq_response e c (messages s1) DEFAULT_MODEL
      in case assistant_response of
           None \<Rightarrow> (s1, [ChatMessage ''user'' prompt] @ errors, reqs)
         | Some r \<Rightarrow>
             if r \<noteq> []
             then (s1\<lparr>messages := messages s1 @ [\<lparr>role = ''assistant'', content = r\<rparr>]\<rparr>,
                   [ChatMessage ''user'' prompt] @ errors @ [ChatMessage ''assistant'' r], reqs)
             else (s1, [ChatMessage ''user'' prompt] @ errors, reqs))"

definition reset_session :: "session_state \<Rightarrow> session_state" where
  \<comment> \<open>the six assignments under the sidebar button\<close>
  "reset_session s =
     s\<lparr>form_completed := False, child_age := None, child_temperament := [],
       current_challenges := [], messages := [], client := None\<rparr>"

definition chat_setup :: "env \<Rightarrow> session_state \<Rightarrow> session_state control \<times> ui list" where
  \<comment> \<open>the block under \<open>if st.session_state.client is None\<close>: when the run goes no
      further inside \<open>initialize_groq_client\<close>, nothing has been stored\<close>
  "chat_setup e s =
     (if client s = None
      then (case initialize_groq_client e of
              (Stopped, errors) \<Rightarrow> (Stopped, errors)
            | (Returned c, errors) \<Rightarrow>
                (Returned (initialize_chat_history (s\<lparr>client := Some c\<rparr>)), errors))
      else (Returned s, []))"

definition show_history :: "message list \<Rightarrow> ui list" where
  "show_history ms =
     map (\<lambda>m. ChatMessage (role m) (content m)) (filter (\<lambda>m. role m \<noteq> ''system'') ms)"

definition chat_body :: "env \<Rightarrow> event \<Rightarrow> session_state \<Rightarrow> session_state \<times> ui list \<times> request list" where
  \<comment> \<open>the two captions, then the block under \<open>if st.session_state.client\<close> and its
      \<open>else\<close>; \<open>st.chat_input\<close> gives a text only in a run set off by it\<close>
  "chat_body e ev s =
     (let captions = [Caption (''Context: '' @ context_summary s),
                      Caption (''Powered by Groq ('' @ DEFAULT_MODEL @ '')'')]
      in case client s of
           None \<Rightarrow>
             (s, captions @ [Error ''Chatbot could not be initialized. Please check API key and connection.''], [])
         | Some c \<Rightarrow>
             (case ev of
                ChatInput prompt \<Rightarrow>
                  if prompt \<noteq> []
                  then (let (s', out, reqs) = handle_user_input e c prompt s
                        in (s', captions @ show_history (messages s) @ out, reqs))
                  else (s, captions @ show_history (messages s), [])
              | _ \<Rightarrow> (s, captions @ show_history (messages s), [])))"

definition chat_interface :: "env \<Rightarrow> event \<Rightarrow> session_state \<Rightarrow> run" where
  \<comment> \<open>the \<open>else\<close> branch of the script: set-up, captions and chat, then the reset button\<close>
  "chat_interface e ev s =
     (case chat_setup e s of
        (Stopped, errors) \<Rightarrow> \<lparr>state = s, shown = errors, sent = [], ending = Halted\<rparr>
      | (Returned s1, out1) \<Rightarrow>
          (let (s2, out2, reqs) = chat_body e ev s1
           in if ev = ResetClick
              then \<lparr>state = reset_session s2, shown = out1 @ out2, sent = reqs,
                    ending = RerunRequested\<rparr>
              else \<lparr>state = s2, shown = out1 @ out2, sent = reqs, ending = Completed\<rparr>))"

definition form_page :: "event \<Rightarrow> session_state \<Rightarrow> run" where
  \<comment> \<open>the branch under \<open>if not st.session_state.form_completed\<close>\<close>
  "form_page ev s =
     (case ev of
        FormSubmit selected_age selected_temperaments challenges_input \<Rightarrow>
          \<lparr>state = s\<lparr>child_age := Some selected_age,
                      child_temperament := selected_temperaments,
                      current_challenges := challenges_input,
                      form_completed := True\<rparr>,
           shown = [Info ''Tell us a bit about your child to receive more personalized advice.'',
                    Success ''Thanks! Setting up your personalized chat...''],
           sent = [], ending = RerunRequested\<rparr>
      | _ \<Rightarrow>
          \<lparr>state = s,
           shown = [Info ''Tell us a bit about your child to receive more personalized advice.''],
           sent = [], ending = Completed\<rparr>)"

definition script :: "env \<Rightarrow> event \<Rightarrow> session_state option \<Rightarrow> run" where
  \<comment> \<open>one execution of \<open>main.py\<close>; the stored session state is \<open>None\<close> before the first run\<close>
  "script e ev store =
     (let s = (case store of None \<Rightarrow> initial_state | Some s0 \<Rightarrow> s0)
      in if \<not> form_completed s then form_page ev s else chat_interface e ev s)"

inductive reachable :: "session_state \<Rightarrow> bool" where
  first_run: "reachable (state (script e ev None))"
| later_run: "reachable s \<Longrightarrow> reachable (state (script e ev (Some s)))"

section \<open>Reading a prompt back\<close>

text \<open>
  The sentences of a prompt are the elements of \<open>prompt_lines\<close>; in the text returned they
  are joined by newlines, so a prompt is read back line by line. A sentence is told by
  the fixed text it begins with; no two kinds of sentence begin alike, whatever was put
  into them.
\<close>

definition is_age_sentence :: "string \<Rightarrow> bool" where
  "is_age_sentence l = prefix age_intro l"

definition is_traits_sentence :: "string \<Rightarrow> bool" where
  "is_traits_sentence l = prefix traits_intro l"

definition is_challenges_sentence :: "string \<Rightarrow> bool" where
  "is_challenges_sentence l = prefix challenges_intro l"

definition listed_traits :: "string \<Rightarrow> string" where
  \<comment> \<open>what stands between the fixed beginning and the fixed end of a traits sentence\<close>
  "listed_traits l =
     take (length l - length traits_intro - length traits_outro) (drop (length traits_intro) l)"


fun lines_of :: "string \<Rightarrow> string list" where
  \<comment> \<open>\<open>s.split("\n")\<close>: the lines of a text\<close>
  "lines_of [] = [[]]"
| "lines_of (c # cs) =
     (if c = CHR 0x0A then [] # lines_of cs
      else (case lines_of cs of
              [] \<Rightarrow> [[c]]
            | l # ls \<Rightarrow> (c # l) # ls))"

fun split_comma_space :: "string \<Rightarrow> string list" where
  \<comment> \<open>\<open>s.split(", ")\<close>\<close>
  "split_comma_space [] = [[]]"
| "split_comma_space [c] = [[c]]"
| "split_comma_space (c # d # cs) =
     (if c = CHR '','' \<and> d = CHR '' '' then [] # split_comma_space cs
      else (case split_comma_space (d # cs) of
              [] \<Rightarrow> [[c]]
            | w # ws \<Rightarrow> (c # w) # ws))"

section \<open>Reading a page back\<close>

fun is_error :: "ui \<Rightarrow> bool" where
  \<comment> \<open>what \<open>st.error\<close> put on the page\<close>
  "is_error (Error _) = True"
| "is_error _ = False"

section \<open>Facts about the string operations\<close>

lemma dropWhile_all_Nil: "(\<forall>x\<in>set (dropWhile P s). P x) \<Longrightarrow> dropWhile P s = []"
proof (cases "dropWhile P s")
  case Nil then show ?thesis by simp
next
  case (Cons x xs)
  assume h: "\<forall>x\<in>set (dropWhile P s). P x"
  from Cons have "\<not> P x" using hd_dropWhile [of P s] by simp
  moreover from h Cons have "P x" by simp
  ultimately show ?thesis by simp
qed

lemma strip_empty_iff: "strip s = [] \<longleftrightarrow> (\<forall>c \<in> set s. isspace c)"
proof -
  have "strip s = [] \<longleftrightarrow> (\<forall>x\<in>set (dropWhile isspace s). isspace x)"
    by (simp add: strip_def lstrip_def rstrip_def)
  also have "\<dots> \<longleftrightarrow> dropWhile isspace s = []"
  proof
    assume "\<forall>x\<in>set (dropWhile isspace s). isspace x"
    then show "dropWhile isspace s = []" by (rule dropWhile_all_Nil)
  next
    assume "dropWhile isspace s = []"
    then show "\<forall>x\<in>set (dropWhile isspace s). isspace x" by (simp only: list.set ball_empty)
  qed
  also have "\<dots> \<longleftrightarrow> (\<forall>c \<in> set s. isspace c)"
    by simp
  finally show ?thesis .
qed

lemma strip_Nil: "strip [] = []"
  by (simp add: strip_def lstrip_def rstrip_def)

lemma split_comma_free: "CHR '','' \<notin> set t \<Longrightarrow> split_comma_space t = [t]"
  by (induction t rule: split_comma_space.induct) auto

lemma split_comma_free_append:
  "CHR '','' \<notin> set t \<Longrightarrow> split_comma_space (t @ '', '' @ r) = t # split_comma_space r"
proof (induction t)
  case Nil then show ?case by simp
next
  case (Cons c t)
  then have ih: "split_comma_space (t @ '', '' @ r) = t # split_comma_space r" by simp
  from Cons.prems have c: "c \<noteq> CHR '',''" by auto
  obtain d ds where d: "t @ '', '' @ r = d # ds" by (cases "t @ '', '' @ r") auto
  have "split_comma_space ((c # t) @ '', '' @ r) = split_comma_space (c # d # ds)"
    using d by simp
  also have "\<dots> = (case split_comma_space (d # ds) of [] \<Rightarrow> [[c]] | w # ws \<Rightarrow> (c # w) # ws)"
    using c by simp
  also have "\<dots> = (c # t) # split_comma_space r"
    using ih d by simp
  finally show ?case .
qed

lemma split_join_comma_space:
  "ts \<noteq> [] \<Longrightarrow> \<forall>t \<in> set ts. CHR '','' \<notin> set t \<Longrightarrow> split_comma_space (join_str '', '' ts) = ts"
proof (induction "'', ''" ts rule: join_str.induct)
  case 1 then show ?case by simp
next
  case (2 x) then show ?case by (simp add: split_comma_free)
next
  case (3 x y ys)
  then have "split_comma_space (join_str '', '' (y # ys)) = y # ys" by simp
  moreover from 3 have "CHR '','' \<notin> set x" by simp
  ultimately show ?case using split_comma_free_append [of x "join_str '', '' (y # ys)"] by simp
qed

lemma listed_traits_sentence: "listed_traits (traits_sentence t) = t"
  by (simp add: listed_traits_def traits_sentence_def)



section \<open>Facts about the sentences\<close>

lemmas sentence_defs =
  age_sentence_def age_intro_def age_outro_def fallback_sentence_def
  traits_sentence_def traits_intro_def traits_outro_def
  challenges_sentence_def challenges_intro_def challenges_outro_def
  safety_sentence_def persona_sentences_def

lemma is_age_sentence_simps:
  "is_age_sentence (age_sentence a)" "\<not> is_age_sentence fallback_sentence"
  "\<not> is_age_sentence (traits_sentence t)" "\<not> is_age_sentence (challenges_sentence c)"
  "\<not> is_age_sentence safety_sentence" "filter is_age_sentence persona_sentences = []"
  by (simp_all add: is_age_sentence_def sentence_defs)

lemma is_traits_sentence_simps:
  "\<not> is_traits_sentence (age_sentence a)" "\<not> is_traits_sentence fallback_sentence"
  "is_traits_sentence (traits_sentence t)" "\<not> is_traits_sentence (challenges_sentence c)"
  "\<not> is_traits_sentence safety_sentence" "filter is_traits_sentence persona_sentences = []"
  by (simp_all add: is_traits_sentence_def sentence_defs)

lemma is_challenges_sentence_simps:
  "\<not> is_challenges_sentence (age_sentence a)" "\<not> is_challenges_sentence fallback_sentence"
  "\<not> is_challenges_sentence (traits_sentence t)" "is_challenges_sentence (challenges_sentence c)"
  "\<not> is_challenges_sentence safety_sentence"
  "filter is_challenges_sentence persona_sentences = []"
  by (simp_all add: is_challenges_sentence_def sentence_defs)

lemma fallback_sentence_distinct:
  "fallback_sentence \<noteq> age_sentence a" "fallback_sentence \<noteq> traits_sentence t"
  "fallback_sentence \<noteq> challenges_sentence c" "fallback_sentence \<noteq> safety_sentence"
  "fallback_sentence \<notin> set persona_sentences"
  by (simp_all add: sentence_defs)

lemma filter_traits_prompt_lines:
  "filter is_traits_sentence (prompt_lines age ts ch) =
     (if ts = [] then [] else [traits_sentence (join_str '', '' ts)])"
  by (simp add: prompt_lines_def is_traits_sentence_simps split: option.splits)

lemma filter_challenges_prompt_lines:
  "filter is_challenges_sentence (prompt_lines age ts ch) =
     (if strip ch = [] then [] else [challenges_sentence (strip ch)])"
  by (auto simp add: prompt_lines_def is_challenges_sentence_simps strip_Nil split: option.splits)

lemma age_options_nonempty: "a \<in> set age_options \<Longrightarrow> a \<noteq> []"
  by (auto simp: age_options_def)


section \<open>Facts about a run\<close>

lemma script_chat:
  "form_completed s \<Longrightarrow> script e ev (Some s) = chat_interface e ev s"
  by (simp add: script_def)

lemma chat_setup_ready:
  "client s = Some c \<Longrightarrow> chat_setup e s = (Returned s, [])"
  by (simp add: chat_setup_def)

lemma is_error_show_history: "filter is_error (show_history ms) = []"
  by (induction ms) (simp_all add: show_history_def)

lemma chat_turn:
  assumes "form_completed s" "client s = Some c" "p \<noteq> []"
  shows "script e (ChatInput p) (Some s) =
           (let (s', out, reqs) = handle_user_input e c p s
            in \<lparr>state = s',
                shown = [Caption (''Context: '' @ context_summary s),
                         Caption (''Powered by Groq ('' @ DEFAULT_MODEL @ '')'')]
                        @ show_history (messages s) @ out,
                sent = reqs, ending = Completed\<rparr>)"
  using assms
  by (simp add: script_chat chat_interface_def chat_setup_ready chat_body_def split: prod.splits)

lemma handle_user_input_raises:
  assumes "completions_create e c (completion_request (messages s @ [\<lparr>role = ''user'', content = p\<rparr>]) DEFAULT_MODEL)
             = Raises err"
  shows "handle_user_input e c p s =
           (s\<lparr>messages := messages s @ [\<lparr>role = ''user'', content = p\<rparr>]\<rparr>,
            [ChatMessage ''user'' p, Error (''An error occurred while communicating with Groq: '' @ err)],
            [completion_request (messages s @ [\<lparr>role = ''user'', content = p\<rparr>]) DEFAULT_MODEL])"
  using assms by (simp add: handle_user_input_def get_groq_response_def)

lemma handle_user_input_returns:
  assumes "completions_create e c (completion_request (messages s @ [\<lparr>role = ''user'', content = p\<rparr>]) DEFAULT_MODEL)
             = Returns r"
  shows "handle_user_input e c p s =
           (case r of
              None \<Rightarrow> (s\<lparr>messages := messages s @ [\<lparr>role = ''user'', content = p\<rparr>]\<rparr>, [ChatMessage ''user'' p],
                        [completion_request (messages s @ [\<lparr>role = ''user'', content = p\<rparr>]) DEFAULT_MODEL])
            | Some t \<Rightarrow>
                if t \<noteq> []
                then (s\<lparr>messages := messages s @ [\<lparr>role = ''user'', content = p\<rparr>, \<lparr>role = ''assistant'', content = t\<rparr>]\<rparr>,
                      [ChatMessage ''user'' p, ChatMessage ''assistant'' t],
                      [completion_request (messages s @ [\<lparr>role = ''user'', content = p\<rparr>]) DEFAULT_MODEL])
                else (s\<lparr>messages := messages s @ [\<lparr>role = ''user'', content = p\<rparr>]\<rparr>, [ChatMessage ''user'' p],
                      [completion_request (messages s @ [\<lparr>role = ''user'', content = p\<rparr>]) DEFAULT_MODEL]))"
  using assms
  by (simp add: handle_user_input_def get_groq_response_def split: option.splits)

lemma handle_user_input_sent:
  "snd (snd (handle_user_input e c p s))
     = [completion_request (messages s @ [\<lparr>role = ''user'', content = p\<rparr>]) DEFAULT_MODEL]"
  by (cases "completions_create e c (completion_request (messages s @ [\<lparr>role = ''user'', content = p\<rparr>]) DEFAULT_MODEL)")
     (simp_all add: handle_user_input_raises handle_user_input_returns split: option.splits)


lemma chat_body_sent:
  "snd (snd (chat_body e ev s)) = []
   \<or> (\<exists>ms. snd (snd (chat_body e ev s)) = [completion_request ms DEFAULT_MODEL])"
proof (cases "client s")
  case None
  then show ?thesis by (simp add: chat_body_def)
next
  case (Some c)
  show ?thesis
  proof (cases ev)
    case (ChatInput p)
    show ?thesis
    proof (cases "p = []")
      case True
      with Some ChatInput show ?thesis by (simp add: chat_body_def)
    next
      case False
      obtain s' out reqs where h: "handle_user_input e c p s = (s', out, reqs)"
        by (cases "handle_user_input e c p s") auto
      with handle_user_input_sent [of e c p s]
      have "reqs = [completion_request (messages s @ [\<lparr>role = ''user'', content = p\<rparr>]) DEFAULT_MODEL]"
        by simp
      with Some ChatInput False h show ?thesis by (auto simp add: chat_body_def)
    qed
  qed (use Some in \<open>simp_all add: chat_body_def\<close>)
qed

lemma script_sent:
  "sent (script e ev store) = []
   \<or> (\<exists>ms. sent (script e ev store) = [completion_request ms DEFAULT_MODEL])"
proof -
  define s where "s = (case store of None \<Rightarrow> initial_state | Some s0 \<Rightarrow> s0)"
  show ?thesis
  proof (cases "form_completed s")
    case False
    then have "sent (script e ev store) = []"
      by (cases ev) (simp_all add: script_def s_def [symmetric] form_page_def)
    then show ?thesis by simp
  next
    case True
    then have eq: "script e ev store = chat_interface e ev s"
      by (simp add: script_def s_def [symmetric])
    obtain r out1 where cs: "chat_setup e s = (r, out1)" by (cases "chat_setup e s") auto
    show ?thesis
    proof (cases r)
      case Stopped
      with cs eq show ?thesis by (simp add: chat_interface_def)
    next
      case (Returned s1)
      obtain s2 out2 reqs where cb: "chat_body e ev s1 = (s2, out2, reqs)"
        by (cases "chat_body e ev s1") auto
      with cs Returned eq have "sent (script e ev store) = reqs"
        by (simp add: chat_interface_def)
      with chat_body_sent [of e ev s1] cb show ?thesis by auto
    qed
  qed
qed


lemma form_page_invariant:
  "\<not> form_completed s \<Longrightarrow> messages s = [] \<and> client s = None \<Longrightarrow>
   \<not> form_completed (state (form_page ev s)) \<longrightarrow>
     messages (state (form_page ev s)) = [] \<and> client (state (form_page ev s)) = None"
  by (cases ev) (simp_all add: form_page_def)

lemma chat_setup_form_completed:
  "chat_setup e s = (Returned s1, out) \<Longrightarrow> form_completed s1 = form_completed s"
  by (auto simp add: chat_setup_def initialize_chat_history_def
      split: if_splits prod.splits control.splits)

lemma handle_user_input_form_completed:
  "form_completed (fst (handle_user_input e c p s)) = form_completed s"
  by (cases "completions_create e c
        (completion_request (messages s @ [\<lparr>role = ''user'', content = p\<rparr>]) DEFAULT_MODEL)")
     (simp_all add: handle_user_input_raises handle_user_input_returns split: option.splits)

lemma chat_body_form_completed:
  "form_completed (fst (chat_body e ev s)) = form_completed s"
proof (cases "client s")
  case None then show ?thesis by (simp add: chat_body_def)
next
  case (Some c)
  show ?thesis
  proof (cases ev)
    case (ChatInput p)
    with Some handle_user_input_form_completed [of e c p s] show ?thesis
      by (auto simp add: chat_body_def Let_def split: prod.splits)
  qed (use Some in \<open>simp_all add: chat_body_def Let_def\<close>)
qed

lemma reset_session_initial: "reset_session s = initial_state"
  by (simp add: reset_session_def initial_state_def)

lemma chat_interface_invariant:
  assumes "form_completed s"
  shows "form_completed (state (chat_interface e ev s))
         \<or> state (chat_interface e ev s) = initial_state"
proof -
  obtain r out1 where cs: "chat_setup e s = (r, out1)" by (cases "chat_setup e s") auto
  show ?thesis
  proof (cases r)
    case Stopped
    with cs assms show ?thesis by (simp add: chat_interface_def)
  next
    case (Returned s1)
    with cs assms have f1: "form_completed s1" using chat_setup_form_completed by blast
    obtain s2 out2 reqs where cb: "chat_body e ev s1 = (s2, out2, reqs)"
      by (cases "chat_body e ev s1") auto
    with f1 chat_body_form_completed [of e ev s1] have "form_completed s2" by simp
    with cs Returned cb show ?thesis
      by (simp add: chat_interface_def reset_session_initial)
  qed
qed

lemma script_invariant:
  assumes "\<not> form_completed s \<longrightarrow> messages s = [] \<and> client s = None"
  shows "\<not> form_completed (state (script e ev (Some s))) \<longrightarrow>
           messages (state (script e ev (Some s))) = []
           \<and> client (state (script e ev (Some s))) = None"
proof (cases "form_completed s")
  case False
  with assms form_page_invariant [of s ev] show ?thesis by (simp add: script_def)
next
  case True
  with chat_interface_invariant [of s e ev] show ?thesis
    by (auto simp add: script_def initial_state_def)
qed

lemma first_run_state:
  "\<not> form_completed (state (script e ev None)) \<longrightarrow>
     messages (state (script e ev None)) = [] \<and> client (state (script e ev None)) = None"
  by (cases ev) (simp_all add: script_def initial_state_def form_page_def)

lemma reachable_invariant:
  "reachable s \<Longrightarrow> \<not> form_completed s \<longrightarrow> messages s = [] \<and> client s = None"
proof (induction rule: reachable.induct)
  case (first_run e ev)
  show ?case by (rule first_run_state)
next
  case (later_run s e ev)
  from later_run.IH show ?case by (rule script_invariant)
qed


lemma form_submit_run:
  "\<not> form_completed s \<Longrightarrow>
   script e (FormSubmit a ts ch) (Some s) =
     \<lparr>state = s\<lparr>child_age := Some a, child_temperament := ts, current_challenges := ch,
                 form_completed := True\<rparr>,
      shown = [Info ''Tell us a bit about your child to receive more personalized advice.'',
               Success ''Thanks! Setting up your personalized chat...''],
      sent = [], ending = RerunRequested\<rparr>"
  by (simp add: script_def form_page_def)

lemma first_arrival_run:
  assumes "form_completed s" and "client s = None" and "messages s = []"
    and "fst (initialize_groq_client e) = Returned c"
  shows "state (script e NoInteraction (Some s)) =
           s\<lparr>client := Some c,
             messages :=
               [\<lparr>role = ''system'',
                 content = create_system_prompt (child_age s) (child_temperament s)
                             (current_challenges s)\<rparr>,
                \<lparr>role = ''assistant'', content = join_str '' '' (welcome_message_parts s)\<rparr>]\<rparr>"
proof -
  obtain errors where i: "initialize_groq_client e = (Returned c, errors)"
    using assms(4) by (cases "initialize_groq_client e") auto
  have w: "welcome_message_parts (s\<lparr>client := Some c\<rparr>) = welcome_message_parts s"
    by (simp add: welcome_message_parts_def)
  have "chat_setup e s =
      (Returned (s\<lparr>client := Some c,
             messages :=
               [\<lparr>role = ''system'',
                 content = create_system_prompt (child_age s) (child_temperament s)
                             (current_challenges s)\<rparr>,
                \<lparr>role = ''assistant'', content = join_str '' '' (welcome_message_parts s)\<rparr>]\<rparr>), errors)"
    using assms(2,3) i by (simp add: chat_setup_def initialize_chat_history_def w)
  then show ?thesis
    using assms(1) by (simp add: script_chat chat_interface_def chat_body_def Let_def)
qed

lemma join_str_Cons: "join_str sep (x # xs) = x @ concat (map (\<lambda>p. sep @ p) xs)"
  by (induction sep xs arbitrary: x rule: join_str.induct) simp_all

lemma lower_append: "lower (xs @ ys) = lower xs @ lower ys"
  by (simp add: lower_def)

lemma lower_join_str: "lower (join_str sep xs) = join_str (lower sep) (map lower xs)"
  by (induction sep xs rule: join_str.induct) (simp_all add: lower_append, simp add: lower_def)

lemma lower_comma_space: "lower '', '' = '', ''"
  by (simp add: lower_def lower_char_def)


section \<open>Facts about the lines of a text\<close>

lemma lines_of_not_Nil: "lines_of s \<noteq> []"
  by (induction s) (auto split: list.splits)

lemma lines_of_Cons:
  "c \<noteq> CHR 0x0A \<Longrightarrow> lines_of (c # cs) = (c # hd (lines_of cs)) # tl (lines_of cs)"
  using lines_of_not_Nil [of cs] by (cases "lines_of cs") simp_all

lemma lines_of_newline_free: "CHR 0x0A \<notin> set s \<Longrightarrow> lines_of s = [s]"
  by (induction s) (auto simp add: lines_of_Cons)

lemma lines_of_append_newline: "lines_of (s @ CHR 0x0A # r) = lines_of s @ lines_of r"
proof (induction s)
  case Nil
  show ?case by simp
next
  case (Cons c s)
  show ?case
  proof (cases "c = CHR 0x0A")
    case True
    with Cons show ?thesis by simp
  next
    case False
    obtain l ls where l: "lines_of s = l # ls"
      using lines_of_not_Nil [of s] by (cases "lines_of s") auto
    with False Cons show ?thesis by simp
  qed
qed

lemma lines_of_free_append:
  "CHR 0x0A \<notin> set p \<Longrightarrow> lines_of (p @ s) = (p @ hd (lines_of s)) # tl (lines_of s)"
proof (induction p)
  case Nil
  show ?case using lines_of_not_Nil [of s] by simp
next
  case (Cons c p)
  then show ?case by (auto simp add: lines_of_Cons)
qed

lemma lines_of_append_free:
  "CHR 0x0A \<notin> set q \<Longrightarrow> lines_of (s @ q) = butlast (lines_of s) @ [last (lines_of s) @ q]"
proof (induction s)
  case Nil
  then show ?case by (simp add: lines_of_newline_free)
next
  case (Cons c s)
  obtain l ls where l: "lines_of s = l # ls"
    using lines_of_not_Nil [of s] by (cases "lines_of s") auto
  obtain l' ls' where l': "lines_of (s @ q) = l' # ls'"
    using lines_of_not_Nil [of "s @ q"] by (cases "lines_of (s @ q)") auto
  from Cons l l' have eq: "l' # ls' = butlast (l # ls) @ [last (l # ls) @ q]" by simp
  show ?case
  proof (cases "c = CHR 0x0A")
    case True
    with Cons l show ?thesis by simp
  next
    case False
    show ?thesis
    proof (cases ls)
      case Nil
      with eq have "l' = l @ q" "ls' = []" by simp_all
      with False l l' Nil show ?thesis by simp
    next
      case (Cons m ms)
      with eq have "l' = l" "ls' = butlast ls @ [last ls @ q]" by simp_all
      with False l l' Cons show ?thesis by simp
    qed
  qed
qed

lemma lines_of_join_str:
  "ls \<noteq> [] \<Longrightarrow> lines_of (join_str [CHR 0x0A] ls) = concat (map lines_of ls)"
proof (induction "[CHR 0x0A]" ls rule: join_str.induct)
  case 1
  then show ?case by simp
next
  case (2 x)
  show ?case by simp
next
  case (3 x y ys)
  then have "lines_of (join_str [CHR 0x0A] (y # ys)) = concat (map lines_of (y # ys))" by simp
  then show ?case
    using lines_of_append_newline [of x "join_str [CHR 0x0A] (y # ys)"] by simp
qed

lemma wrapped_lines_tail:
  assumes "CHR 0x0A \<notin> set p" and "CHR 0x0A \<notin> set q"
  shows "lines_of (p @ x @ q)
           = (case lines_of x of
                [] \<Rightarrow> []
              | [l] \<Rightarrow> [p @ l @ q]
              | l # m # ms \<Rightarrow> (p @ l) # butlast (m # ms) @ [last (m # ms) @ q])"
proof -
  have a: "lines_of (x @ q) = butlast (lines_of x) @ [last (lines_of x) @ q]"
    using assms(2) by (rule lines_of_append_free)
  have b: "lines_of (p @ x @ q) = (p @ hd (lines_of (x @ q))) # tl (lines_of (x @ q))"
    using assms(1) by (rule lines_of_free_append)
  show ?thesis
  proof (cases "lines_of x")
    case Nil
    with lines_of_not_Nil show ?thesis by blast
  next
    case (Cons l ls)
    show ?thesis
    proof (cases ls)
      case Nil
      with Cons a b show ?thesis by simp
    next
      case (Cons m ms)
      with \<open>lines_of x = l # ls\<close> a b show ?thesis by simp
    qed
  qed
qed

lemma wrapped_lines_first:
  assumes "CHR 0x0A \<notin> set p" and "CHR 0x0A \<notin> set q"
  shows "prefix p (hd (lines_of (p @ x @ q)))"
  using assms(1) by (simp add: lines_of_free_append)

lemma wrapped_lines_none:
  assumes "CHR 0x0A \<notin> set p" and "CHR 0x0A \<notin> set q"
    and first: "\<And>y. \<not> R (p @ y)"
    and last: "\<And>y. R (y @ q) \<Longrightarrow> R y"
    and later: "\<forall>l \<in> set (tl (lines_of x)). \<not> R l"
  shows "filter R (lines_of (p @ x @ q)) = []"
proof (cases "lines_of x")
  case Nil
  with lines_of_not_Nil show ?thesis by blast
next
  case (Cons l ls)
  show ?thesis
  proof (cases ls)
    case Nil
    with Cons first show ?thesis
      by (simp add: wrapped_lines_tail [OF assms(1,2)])
  next
    case (Cons m ms)
    with \<open>lines_of x = l # ls\<close> have lines: "lines_of (p @ x @ q)
        = (p @ l) # butlast (m # ms) @ [last (m # ms) @ q]"
      by (simp add: wrapped_lines_tail [OF assms(1,2)])
    from later Cons \<open>lines_of x = l # ls\<close> have all: "\<forall>k \<in> set (m # ms). \<not> R k" by simp
    then have "\<forall>k \<in> set (butlast (m # ms)). \<not> R k"
      by (meson in_set_butlastD)
    then have mid: "filter R (butlast (m # ms)) = []"
      by (simp only: filter_empty_conv)
    from all have "\<not> R (last (m # ms))"
      using last_in_set [of "m # ms"] by blast
    with last have "\<not> R (last (m # ms) @ q)" by blast
    with mid first show ?thesis unfolding lines by simp
  qed
qed

lemma prefix_before_outro:
  assumes "q \<noteq> []" and "hd q \<notin> set i" and "prefix i (y @ q)"
  shows "prefix i y"
proof -
  from assms(3) consider "prefix i y" | us where "i = y @ us" "prefix us q"
    by (auto simp add: prefix_append)
  then show ?thesis
  proof cases
    case 1 then show ?thesis .
  next
    case 2
    show ?thesis
    proof (cases us)
      case Nil
      with 2 show ?thesis by simp
    next
      case (Cons u us')
      with 2(2) assms(1) have "hd q = u" by (cases q) auto
      with 2(1) Cons assms(2) show ?thesis by simp
    qed
  qed
qed

lemma prefix_before_outro_suffixes:
  assumes "\<forall>us \<in> set (suffixes i). us = [] \<or> \<not> prefix us q" and "prefix i (y @ q)"
  shows "prefix i y"
proof -
  from assms(2) consider "prefix i y" | us where "i = y @ us" "prefix us q"
    by (auto simp add: prefix_append)
  then show ?thesis
  proof cases
    case 1 then show ?thesis .
  next
    case 2
    then have "suffix us i" by (simp add: suffix_def)
    with assms(1) 2(2) have "us = []" by auto
    with 2(1) show ?thesis by simp
  qed
qed

lemma join_str_append:
  "xs \<noteq> [] \<Longrightarrow> join_str sep (xs @ ys) = join_str sep xs @ concat (map (\<lambda>p. sep @ p) ys)"
  by (cases xs) (simp_all add: join_str_Cons del: join_str.simps)

section \<open>Facts about the lines of a prompt\<close>

lemma fixed_text_newline_free:
  "CHR 0x0A \<notin> set age_intro" "CHR 0x0A \<notin> set age_outro"
  "CHR 0x0A \<notin> set traits_intro" "CHR 0x0A \<notin> set traits_outro"
  "CHR 0x0A \<notin> set challenges_intro" "CHR 0x0A \<notin> set challenges_outro"
  "CHR 0x0A \<notin> set fallback_sentence" "CHR 0x0A \<notin> set safety_sentence"
  by (simp_all add: sentence_defs)

lemma persona_lines: "concat (map lines_of persona_sentences) = persona_sentences"
  by (simp add: persona_sentences_def lines_of_newline_free)

lemma age_options_newline_free: "a \<in> set age_options \<Longrightarrow> CHR 0x0A \<notin> set a"
  by (auto simp: age_options_def)


lemma join_str_newline_free:
  "\<forall>t \<in> set ts. CHR 0x0A \<notin> set t \<Longrightarrow> CHR 0x0A \<notin> set (join_str '', '' ts)"
  by (induction "'', ''" ts rule: join_str.induct) simp_all

lemma age_sentence_line:
  "CHR 0x0A \<notin> set a \<Longrightarrow> lines_of (age_sentence a) = [age_sentence a]"
  by (rule lines_of_newline_free) (simp add: age_sentence_def fixed_text_newline_free)

lemma prompt_lines_not_Nil: "prompt_lines age ts ch \<noteq> []"
  by (simp add: prompt_lines_def persona_sentences_def)

lemma lines_of_prompt:
  assumes "age \<in> set (None # map Some age_options)"
  shows "lines_of (create_system_prompt age ts ch)
     = persona_sentences
       @ [case age of
            None \<Rightarrow> fallback_sentence
          | Some a \<Rightarrow> if a = ''Not specified'' then fallback_sentence else age_sentence a]
       @ (if ts = [] then [] else lines_of (traits_sentence (join_str '', '' ts)))
       @ (if strip ch = [] then [] else lines_of (challenges_sentence (strip ch)))
       @ [safety_sentence]"
proof -
  have blank: "(ch \<noteq> [] \<and> strip ch \<noteq> []) = (strip ch \<noteq> [])"
    using strip_Nil by auto
  have fb: "lines_of fallback_sentence = [fallback_sentence]"
    and sf: "lines_of safety_sentence = [safety_sentence]"
    by (simp_all add: lines_of_newline_free fixed_text_newline_free)
  have age: "concat (map lines_of
          (case age of
             None \<Rightarrow> [fallback_sentence]
           | Some a \<Rightarrow>
               if a \<noteq> [] \<and> a \<noteq> not_specified then [age_sentence a] else [fallback_sentence]))
        = [case age of
            None \<Rightarrow> fallback_sentence
          | Some a \<Rightarrow> if a = ''Not specified'' then fallback_sentence else age_sentence a]"
  proof (cases age)
    case None
    then show ?thesis by (simp add: fb)
  next
    case (Some a)
    with assms have a: "a \<in> set age_options" by auto
    then have "a \<noteq> []" "CHR 0x0A \<notin> set a"
      by (simp_all add: age_options_nonempty age_options_newline_free)
    with Some show ?thesis by (simp add: fb age_sentence_line not_specified_def)
  qed
  have "lines_of (create_system_prompt age ts ch)
          = concat (map lines_of (prompt_lines age ts ch))"
    unfolding create_system_prompt_def using prompt_lines_not_Nil by (rule lines_of_join_str)
  also have "\<dots> = persona_sentences
       @ [case age of
            None \<Rightarrow> fallback_sentence
          | Some a \<Rightarrow> if a = ''Not specified'' then fallback_sentence else age_sentence a]
       @ (if ts = [] then [] else lines_of (traits_sentence (join_str '', '' ts)))
       @ (if strip ch = [] then [] else lines_of (challenges_sentence (strip ch)))
       @ [safety_sentence]"
    unfolding prompt_lines_def map_append concat_append persona_lines age blank
    by (simp add: sf)
  finally show ?thesis .
qed

lemma create_system_prompt_text:
  "create_system_prompt age ts ch
     = join_str [CHR 0x0A] persona_sentences
       @ [CHR 0x0A]
       @ (case age of
            None \<Rightarrow> fallback_sentence
          | Some a \<Rightarrow>
              if a \<noteq> [] \<and> a \<noteq> ''Not specified'' then age_sentence a else fallback_sentence)
       @ (if ts = [] then [] else [CHR 0x0A] @ traits_sentence (join_str '', '' ts))
       @ (if strip ch = [] then [] else [CHR 0x0A] @ challenges_sentence (strip ch))
       @ [CHR 0x0A] @ safety_sentence"
proof -
  have blank: "(ch \<noteq> [] \<and> strip ch \<noteq> []) = (strip ch \<noteq> [])"
    using strip_Nil by auto
  have ne: "persona_sentences \<noteq> []" by (simp add: persona_sentences_def)
  show ?thesis
    unfolding create_system_prompt_def prompt_lines_def join_str_append [OF ne] blank
    by (simp add: not_specified_def split: option.splits)
qed

lemma no_age_line_in_traits_sentence:
  assumes "\<forall>l \<in> set (tl (lines_of x)). \<not> is_age_sentence l"
  shows "filter is_age_sentence (lines_of (traits_sentence x)) = []"
  unfolding traits_sentence_def
proof (rule wrapped_lines_none [OF fixed_text_newline_free(3,4)])
  show "\<not> is_age_sentence (traits_intro @ y)" for y
    by (simp add: is_age_sentence_def age_intro_def traits_intro_def)
  show "is_age_sentence y" if "is_age_sentence (y @ traits_outro)" for y
    using that unfolding is_age_sentence_def
    by (rule prefix_before_outro [rotated 2]) (simp_all add: traits_outro_def age_intro_def)
  show "\<forall>l \<in> set (tl (lines_of x)). \<not> is_age_sentence l" by (rule assms)
qed

lemma no_age_line_in_challenges_sentence:
  assumes "\<forall>l \<in> set (tl (lines_of x)). \<not> is_age_sentence l"
  shows "filter is_age_sentence (lines_of (challenges_sentence x)) = []"
  unfolding challenges_sentence_def
proof (rule wrapped_lines_none [OF fixed_text_newline_free(5,6)])
  show "\<not> is_age_sentence (challenges_intro @ y)" for y
    by (simp add: is_age_sentence_def age_intro_def challenges_intro_def)
  show "is_age_sentence y" if "is_age_sentence (y @ challenges_outro)" for y
    using that unfolding is_age_sentence_def
    by (rule prefix_before_outro [rotated 2]) (simp_all add: challenges_outro_def age_intro_def)
  show "\<forall>l \<in> set (tl (lines_of x)). \<not> is_age_sentence l" by (rule assms)
qed

lemma append_eq_fixed:
  "y @ q = f \<Longrightarrow> prefix (rev q) (rev f)"
  by auto

lemma no_fallback_line_in_traits_sentence:
  assumes "\<forall>l \<in> set (tl (lines_of x)). l \<noteq> fallback_sentence"
  shows "filter (\<lambda>l. l = fallback_sentence) (lines_of (traits_sentence x)) = []"
  unfolding traits_sentence_def
proof (rule wrapped_lines_none [OF fixed_text_newline_free(3,4)])
  show "\<not> traits_intro @ y = fallback_sentence" for y
    by (simp add: fallback_sentence_def traits_intro_def)
  show "y = fallback_sentence" if "y @ traits_outro = fallback_sentence" for y
    using append_eq_fixed [OF that] by (simp add: traits_outro_def fallback_sentence_def)
  show "\<forall>l \<in> set (tl (lines_of x)). \<not> l = fallback_sentence" by (rule assms)
qed

lemma no_fallback_line_in_challenges_sentence:
  assumes "\<forall>l \<in> set (tl (lines_of x)). l \<noteq> fallback_sentence"
  shows "filter (\<lambda>l. l = fallback_sentence) (lines_of (challenges_sentence x)) = []"
  unfolding challenges_sentence_def
proof (rule wrapped_lines_none [OF fixed_text_newline_free(5,6)])
  show "\<not> challenges_intro @ y = fallback_sentence" for y
    by (simp add: fallback_sentence_def challenges_intro_def)
  show "y = fallback_sentence" if "y @ challenges_outro = fallback_sentence" for y
    using append_eq_fixed [OF that] by (simp add: challenges_outro_def fallback_sentence_def)
  show "\<forall>l \<in> set (tl (lines_of x)). \<not> l = fallback_sentence" by (rule assms)
qed

lemma no_traits_line_in_challenges_sentence:
  assumes "\<forall>l \<in> set (tl (lines_of x)). \<not> is_traits_sentence l"
  shows "filter is_traits_sentence (lines_of (challenges_sentence x)) = []"
  unfolding challenges_sentence_def
proof (rule wrapped_lines_none [OF fixed_text_newline_free(5,6)])
  show "\<not> is_traits_sentence (challenges_intro @ y)" for y
    by (simp add: is_traits_sentence_def traits_intro_def challenges_intro_def)
  have "\<forall>us \<in> set (suffixes traits_intro). us = [] \<or> \<not> prefix us challenges_outro"
    by (simp add: traits_intro_def challenges_outro_def)
  then show "is_traits_sentence y" if "is_traits_sentence (y @ challenges_outro)" for y
    using that unfolding is_traits_sentence_def by (rule prefix_before_outro_suffixes)
  show "\<forall>l \<in> set (tl (lines_of x)). \<not> is_traits_sentence l" by (rule assms)
qed


lemma traits_sentence_first_line:
  "is_traits_sentence (hd (lines_of (traits_sentence x)))"
  unfolding traits_sentence_def is_traits_sentence_def
  by (rule wrapped_lines_first [OF fixed_text_newline_free(3,4)])


lemma list_ex_hd: "xs \<noteq> [] \<Longrightarrow> P (hd xs) \<Longrightarrow> list_ex P xs"
  by (cases xs) simp_all

lemma list_ex_filter: "list_ex P xs \<longleftrightarrow> filter P xs \<noteq> []"
  by (simp add: list_ex_iff filter_empty_conv)

lemma strip_unchanged:
  assumes "s \<noteq> []" and "\<not> isspace (hd s)" and "\<not> isspace (last s)"
  shows "strip s = s"
proof -
  from assms(1,2) have a: "dropWhile isspace s = s" by (cases s) simp_all
  from assms(1,3) have "\<not> isspace (hd (rev s))" by (simp add: hd_rev)
  with assms(1) have "dropWhile isspace (rev s) = rev s" by (cases "rev s") simp_all
  with a show ?thesis by (simp add: strip_def lstrip_def rstrip_def)
qed

lemma filter_fallback_iff:
  "fallback_sentence \<in> set xs \<longleftrightarrow> filter (\<lambda>l. l = fallback_sentence) xs \<noteq> []"
  by (auto simp add: filter_empty_conv)


lemma three_lines:
  assumes "CHR 0x0A \<notin> set a" and "CHR 0x0A \<notin> set b" and "CHR 0x0A \<notin> set c"
  shows "lines_of (a @ [CHR 0x0A] @ b @ [CHR 0x0A] @ c) = [a, b, c]"
  using assms lines_of_append_newline [of a "b @ [CHR 0x0A] @ c"] lines_of_append_newline [of b c]
  by (simp add: lines_of_newline_free)

lemma two_lines:
  assumes "CHR 0x0A \<notin> set a" and "CHR 0x0A \<notin> set b"
  shows "lines_of (a @ [CHR 0x0A] @ b) = [a, b]"
  using assms lines_of_append_newline [of a b] by (simp add: lines_of_newline_free)

section \<open>The claims about the system prompt\<close>

text \<open>
  C1, as amended. For the age range \<open>Not specified\<close>, no traits and the challenges text of
  two spaces, the prompt is the five fixed persona sentences, the fallback age sentence and
  the closing safety sentence, joined by newlines, and nothing else: no traits sentence and
  no challenges sentence.
\<close>

theorem scenario_B_prompt:
  "create_system_prompt (Some ''Not specified'') [] ''  ''
     = join_str [CHR 0x0A] (persona_sentences @ [fallback_sentence, safety_sentence])
   \<and> prompt_lines (Some ''Not specified'') [] ''  ''
     = persona_sentences @ [fallback_sentence, safety_sentence]
   \<and> length persona_sentences = 5
   \<and> filter is_traits_sentence (prompt_lines (Some ''Not specified'') [] ''  '') = []
   \<and> filter is_challenges_sentence (prompt_lines (Some ''Not specified'') [] ''  '') = []"
proof -
  have blank: "strip ''  '' = []"
    by (simp add: strip_def lstrip_def rstrip_def isspace_def)
  have lines: "prompt_lines (Some ''Not specified'') [] ''  ''
      = persona_sentences @ [fallback_sentence, safety_sentence]"
    by (simp add: prompt_lines_def not_specified_def blank)
  have five: "length persona_sentences = 5"
    by (simp add: persona_sentences_def)
  have whole: "create_system_prompt (Some ''Not specified'') [] ''  ''
      = join_str [CHR 0x0A] (persona_sentences @ [fallback_sentence, safety_sentence])"
    by (simp only: create_system_prompt_def lines)
  have no_traits: "filter is_traits_sentence (prompt_lines (Some ''Not specified'') [] ''  '') = []"
    by (simp add: filter_traits_prompt_lines)
  have no_challenges:
    "filter is_challenges_sentence (prompt_lines (Some ''Not specified'') [] ''  '') = []"
    by (simp add: filter_challenges_prompt_lines blank)
  from whole lines five no_traits no_challenges show ?thesis by blast
qed

text \<open>
  C1, as the claim states it, with four persona sentences: the prompt would have six
  sentences and the fallback sentence would be the fifth. It has seven, and the fifth is
  the last persona sentence.
\<close>

theorem scenario_B_four_persona_counterexample:
  "length (prompt_lines (Some ''Not specified'') [] ''  '') \<noteq> 4 + 1 + 1
   \<and> prompt_lines (Some ''Not specified'') [] ''  '' ! 4 \<noteq> fallback_sentence
   \<and> prompt_lines (Some ''Not specified'') [] ''  '' ! 4
       = ''Respond concisely but thoroughly to user questions about parenting challenges and strategies.''"
proof -
  have blank: "strip ''  '' = []"
    by (simp add: strip_def lstrip_def rstrip_def isspace_def)
  have lines: "prompt_lines (Some ''Not specified'') [] ''  ''
      = persona_sentences @ [fallback_sentence, safety_sentence]"
    by (simp add: prompt_lines_def not_specified_def blank)
  show ?thesis
    by (simp add: lines persona_sentences_def fallback_sentence_def)
qed

text \<open>
  C2, as amended. For an age range that is absent, \<open>Not specified\<close> or any other entry of
  the form's list, and for traits and a challenges text of which no line after the first
  (of the comma-joined traits, of the stripped challenges text) begins like an
  age-tailoring sentence or is the fallback sentence: the text returned has an
  age-tailoring sentence among its lines if and only if the age range is present and is
  not \<open>Not specified\<close>, and then it is the one sentence naming that age range and the
  fallback sentence is not among the lines; otherwise no line is an age-tailoring sentence
  and the fallback sentence is among the lines. The text returned is given in full.
\<close>

theorem age_sentence_iff_specified:
  assumes "age \<in> set (None # map Some age_options)"
    and "\<forall>l \<in> set (tl (lines_of (join_str '', '' ts)) @ tl (lines_of (strip ch))).
           \<not> is_age_sentence l \<and> l \<noteq> fallback_sentence"
  shows "(list_ex is_age_sentence (lines_of (create_system_prompt age ts ch))
            \<longleftrightarrow> age \<noteq> None \<and> age \<noteq> Some ''Not specified'')
       \<and> (fallback_sentence \<in> set (lines_of (create_system_prompt age ts ch))
            \<longleftrightarrow> \<not> (age \<noteq> None \<and> age \<noteq> Some ''Not specified''))
       \<and> filter is_age_sentence (lines_of (create_system_prompt age ts ch))
            = (case age of
                 None \<Rightarrow> []
               | Some a \<Rightarrow> if a = ''Not specified'' then [] else [age_sentence a])
       \<and> create_system_prompt age ts ch
            = join_str [CHR 0x0A] persona_sentences
              @ [CHR 0x0A]
              @ (case age of
                   None \<Rightarrow> fallback_sentence
                 | Some a \<Rightarrow> if a = ''Not specified'' then fallback_sentence else age_sentence a)
              @ (if ts = [] then [] else [CHR 0x0A] @ traits_sentence (join_str '', '' ts))
              @ (if strip ch = [] then [] else [CHR 0x0A] @ challenges_sentence (strip ch))
              @ [CHR 0x0A] @ safety_sentence"
proof -
  let ?out = "create_system_prompt age ts ch"
  let ?A = "case age of
              None \<Rightarrow> fallback_sentence
            | Some a \<Rightarrow> if a = ''Not specified'' then fallback_sentence else age_sentence a"
  let ?T = "if ts = [] then [] else lines_of (traits_sentence (join_str '', '' ts))"
  let ?C = "if strip ch = [] then [] else lines_of (challenges_sentence (strip ch))"
  have ne: "a \<noteq> []" if "age = Some a" for a
    using assms(1) that age_options_nonempty by auto
  have lines: "lines_of ?out = persona_sentences @ [?A] @ ?T @ ?C @ [safety_sentence]"
    using assms(1) by (rule lines_of_prompt)
  from assms(2) have hT: "\<forall>l \<in> set (tl (lines_of (join_str '', '' ts))). \<not> is_age_sentence l"
    and hC: "\<forall>l \<in> set (tl (lines_of (strip ch))). \<not> is_age_sentence l"
    and fT: "\<forall>l \<in> set (tl (lines_of (join_str '', '' ts))). l \<noteq> fallback_sentence"
    and fC: "\<forall>l \<in> set (tl (lines_of (strip ch))). l \<noteq> fallback_sentence"
    by auto
  have aT: "filter is_age_sentence ?T = []"
    using no_age_line_in_traits_sentence [OF hT] by simp
  have aC: "filter is_age_sentence ?C = []"
    using no_age_line_in_challenges_sentence [OF hC] by simp
  have bT: "filter (\<lambda>l. l = fallback_sentence) ?T = []"
    using no_fallback_line_in_traits_sentence [OF fT] by simp
  have bC: "filter (\<lambda>l. l = fallback_sentence) ?C = []"
    using no_fallback_line_in_challenges_sentence [OF fC] by simp
  have f: "filter is_age_sentence (lines_of ?out)
            = (case age of
                 None \<Rightarrow> []
               | Some a \<Rightarrow> if a = ''Not specified'' then [] else [age_sentence a])"
    unfolding lines filter_append aT aC
    by (simp add: is_age_sentence_simps split: option.splits)
  have ex: "list_ex is_age_sentence (lines_of ?out)
            \<longleftrightarrow> age \<noteq> None \<and> age \<noteq> Some ''Not specified''"
    unfolding list_ex_filter f by (simp split: option.splits)
  have pf: "filter (\<lambda>l. l = fallback_sentence) persona_sentences = []"
    using fallback_sentence_distinct(5) by (simp add: filter_empty_conv) metis
  have "filter (\<lambda>l. l = fallback_sentence) (lines_of ?out)
            = (case age of
                 None \<Rightarrow> [fallback_sentence]
               | Some a \<Rightarrow> if a = ''Not specified'' then [fallback_sentence] else [])"
    unfolding lines filter_append bT bC pf
    using fallback_sentence_distinct(1,4) fallback_sentence_distinct(1,4) [symmetric]
    by (auto split: option.splits)
  then have fb: "fallback_sentence \<in> set (lines_of ?out)
            \<longleftrightarrow> \<not> (age \<noteq> None \<and> age \<noteq> Some ''Not specified'')"
    unfolding filter_fallback_iff by (simp split: option.splits)
  have whole: "?out
            = join_str [CHR 0x0A] persona_sentences
              @ [CHR 0x0A] @ ?A
              @ (if ts = [] then [] else [CHR 0x0A] @ traits_sentence (join_str '', '' ts))
              @ (if strip ch = [] then [] else [CHR 0x0A] @ challenges_sentence (strip ch))
              @ [CHR 0x0A] @ safety_sentence"
    using ne by (simp only: create_system_prompt_text [of age ts ch]) (simp split: option.splits)
  from ex fb f whole show ?thesis by (intro conjI)
qed

theorem age_sentence_iff_specified_witness:
  "Some ''Toddler (1-3 years)'' \<in> set (None # map Some age_options)
   \<and> tl (lines_of (join_str '', '' [''Shy / Cautious''])) @ tl (lines_of (strip ('' naps and'' @ [CHR 0x0A] @ ''tantrums'')))
       = [''tantrums'']
   \<and> \<not> is_age_sentence ''tantrums'' \<and> ''tantrums'' \<noteq> fallback_sentence
   \<and> filter is_age_sentence
        (lines_of (create_system_prompt (Some ''Toddler (1-3 years)'') [''Shy / Cautious'']
                    ('' naps and'' @ [CHR 0x0A] @ ''tantrums'')))
       = [''The user is specifically asking for advice related to a child in the Toddler (1-3 years) age range. Tailor your advice significantly based on this developmental stage.'']
   \<and> fallback_sentence
        \<notin> set (lines_of (create_system_prompt (Some ''Toddler (1-3 years)'') [''Shy / Cautious'']
                    ('' naps and'' @ [CHR 0x0A] @ ''tantrums'')))"
proof -
  let ?ch = "'' naps and'' @ [CHR 0x0A] @ ''tantrums''"
  have h1: "Some ''Toddler (1-3 years)'' \<in> set (None # map Some age_options)"
    by (simp add: age_options_def)
  have s: "strip ?ch = ''naps and'' @ [CHR 0x0A] @ ''tantrums''"
    by (simp add: strip_def lstrip_def rstrip_def isspace_def)
  have l: "lines_of (''naps and'' @ [CHR 0x0A] @ ''tantrums'') = [''naps and'', ''tantrums'']"
    by (rule two_lines) simp_all
  have j: "lines_of (join_str '', '' [''Shy / Cautious'']) = [''Shy / Cautious'']"
    by (simp add: lines_of_newline_free)
  have later: "tl (lines_of (join_str '', '' [''Shy / Cautious''])) @ tl (lines_of (strip ?ch))
       = [''tantrums'']"
    unfolding s l j by simp
  have n1: "\<not> is_age_sentence ''tantrums''"
    by (simp add: is_age_sentence_def age_intro_def)
  have n2: "''tantrums'' \<noteq> fallback_sentence"
    by (simp add: fallback_sentence_def)
  have h2: "\<forall>l \<in> set (tl (lines_of (join_str '', '' [''Shy / Cautious'']))
                      @ tl (lines_of (strip ?ch))).
           \<not> is_age_sentence l \<and> l \<noteq> fallback_sentence"
    unfolding later using n1 n2 by simp
  note t = age_sentence_iff_specified [OF h1 h2]
  have lit: "age_sentence ''Toddler (1-3 years)''
      = ''The user is specifically asking for advice related to a child in the Toddler (1-3 years) age range. Tailor your advice significantly based on this developmental stage.''"
    by (simp add: age_sentence_def age_intro_def age_outro_def)
  from t [THEN conjunct2, THEN conjunct2, THEN conjunct1]
  have a: "filter is_age_sentence
        (lines_of (create_system_prompt (Some ''Toddler (1-3 years)'') [''Shy / Cautious''] ?ch))
       = [age_sentence ''Toddler (1-3 years)'']"
    by simp
  from t [THEN conjunct2, THEN conjunct1]
  have b: "fallback_sentence
        \<notin> set (lines_of (create_system_prompt (Some ''Toddler (1-3 years)'') [''Shy / Cautious''] ?ch))"
    by simp
  from h1 later n1 n2 a [unfolded lit] b show ?thesis by (intro conjI)
qed

text \<open>
  C2, as the claim states it, for every traits list and challenges text: with the age
  range \<open>Not specified\<close>, no traits, and a challenges text of three lines whose second
  line is the age-tailoring sentence for teenagers, the text returned has that sentence
  as a line of its own, next to the fallback sentence.
\<close>

theorem age_sentence_injected_counterexample:
  "Some ''Not specified'' \<in> set (None # map Some age_options)
   \<and> age_sentence ''Teenager (13+ years)''
       \<in> set (lines_of (create_system_prompt (Some ''Not specified'') []
                 (''Help'' @ [CHR 0x0A] @ age_sentence ''Teenager (13+ years)''
                  @ [CHR 0x0A] @ ''Thanks'')))
   \<and> list_ex is_age_sentence
        (lines_of (create_system_prompt (Some ''Not specified'') []
                 (''Help'' @ [CHR 0x0A] @ age_sentence ''Teenager (13+ years)''
                  @ [CHR 0x0A] @ ''Thanks'')))
   \<and> fallback_sentence
       \<in> set (lines_of (create_system_prompt (Some ''Not specified'') []
                 (''Help'' @ [CHR 0x0A] @ age_sentence ''Teenager (13+ years)''
                  @ [CHR 0x0A] @ ''Thanks'')))"
proof -
  let ?ch = "''Help'' @ [CHR 0x0A] @ age_sentence ''Teenager (13+ years)'' @ [CHR 0x0A] @ ''Thanks''"
  have dom: "Some ''Not specified'' \<in> set (None # map Some age_options)"
    by (simp add: age_options_def)
  have s: "strip ?ch = ?ch"
    by (rule strip_unchanged) (simp_all add: isspace_def)
  have nf: "CHR 0x0A \<notin> set (age_sentence ''Teenager (13+ years)'')"
    by (simp add: age_sentence_def fixed_text_newline_free)
  have l: "lines_of ?ch = [''Help'', age_sentence ''Teenager (13+ years)'', ''Thanks'']"
    by (rule three_lines) (simp_all add: nf)
  have w: "lines_of (challenges_sentence ?ch)
      = [challenges_intro @ ''Help'', age_sentence ''Teenager (13+ years)'',
         ''Thanks'' @ challenges_outro]"
    unfolding challenges_sentence_def wrapped_lines_tail [OF fixed_text_newline_free(5,6)] l
    by simp
  have ne: "?ch \<noteq> []" by simp
  have lines: "lines_of (create_system_prompt (Some ''Not specified'') [] ?ch)
      = persona_sentences @ [fallback_sentence]
        @ [challenges_intro @ ''Help'', age_sentence ''Teenager (13+ years)'',
           ''Thanks'' @ challenges_outro]
        @ [safety_sentence]"
    unfolding lines_of_prompt [OF dom] s w using ne by simp
  have a: "age_sentence ''Teenager (13+ years)''
       \<in> set (lines_of (create_system_prompt (Some ''Not specified'') [] ?ch))"
    unfolding lines by simp
  have b: "list_ex is_age_sentence (lines_of (create_system_prompt (Some ''Not specified'') [] ?ch))"
    unfolding lines by (simp add: is_age_sentence_simps)
  have c: "fallback_sentence
       \<in> set (lines_of (create_system_prompt (Some ''Not specified'') [] ?ch))"
    unfolding lines by simp
  from dom a b c show ?thesis by (intro conjI)
qed

text \<open>
  C3, as amended. For every list of traits, an age range that is absent or an entry of the
  form's list, and a challenges text of which no line after the first (of the stripped
  text) begins like a traits sentence: the text returned has a traits sentence among its
  lines if and only if the list of traits is not empty. The text returned is given in
  full: the traits sentence is the fixed beginning, the traits joined by a comma and a
  space in the order given, and the fixed end. When no trait holds a line break, that
  sentence is one line, and the only traits sentence; when moreover no trait holds a
  comma, as none of the form's does, splitting what it lists at the separators gives back
  the list of traits, element by element.
\<close>

theorem traits_sentence_iff_nonempty:
  assumes "age \<in> set (None # map Some age_options)"
    and "\<forall>l \<in> set (tl (lines_of (strip ch))). \<not> is_traits_sentence l"
  shows "(list_ex is_traits_sentence (lines_of (create_system_prompt age ts ch)) \<longleftrightarrow> ts \<noteq> [])
       \<and> create_system_prompt age ts ch
            = join_str [CHR 0x0A] persona_sentences
              @ [CHR 0x0A]
              @ (case age of
                   None \<Rightarrow> fallback_sentence
                 | Some a \<Rightarrow> if a = ''Not specified'' then fallback_sentence else age_sentence a)
              @ (if ts = [] then []
                 else [CHR 0x0A] @ traits_intro @ join_str '', '' ts @ traits_outro)
              @ (if strip ch = [] then [] else [CHR 0x0A] @ challenges_sentence (strip ch))
              @ [CHR 0x0A] @ safety_sentence
       \<and> ((\<forall>t \<in> set ts. CHR 0x0A \<notin> set t) \<longrightarrow>
            filter is_traits_sentence (lines_of (create_system_prompt age ts ch))
              = (if ts = [] then [] else [traits_sentence (join_str '', '' ts)]))
       \<and> (ts \<noteq> [] \<and> (\<forall>t \<in> set ts. CHR 0x0A \<notin> set t \<and> CHR '','' \<notin> set t) \<longrightarrow>
            map (\<lambda>l. split_comma_space (listed_traits l))
              (filter is_traits_sentence (lines_of (create_system_prompt age ts ch))) = [ts])"
proof -
  let ?out = "create_system_prompt age ts ch"
  let ?A = "case age of
              None \<Rightarrow> fallback_sentence
            | Some a \<Rightarrow> if a = ''Not specified'' then fallback_sentence else age_sentence a"
  let ?T = "if ts = [] then [] else lines_of (traits_sentence (join_str '', '' ts))"
  let ?C = "if strip ch = [] then [] else lines_of (challenges_sentence (strip ch))"
  have ne: "a \<noteq> []" if "age = Some a" for a
    using assms(1) that age_options_nonempty by auto
  have lines: "lines_of ?out = persona_sentences @ [?A] @ ?T @ ?C @ [safety_sentence]"
    using assms(1) by (rule lines_of_prompt)
  have nA: "\<not> is_traits_sentence ?A"
    by (simp add: is_traits_sentence_simps split: option.splits)
  have tC: "filter is_traits_sentence ?C = []"
    using no_traits_line_in_challenges_sentence [OF assms(2)] by simp
  have f: "filter is_traits_sentence (lines_of ?out) = filter is_traits_sentence ?T"
    unfolding lines filter_append tC using nA by (simp add: is_traits_sentence_simps)
  have "filter is_traits_sentence (lines_of (traits_sentence x)) \<noteq> []" for x
    using list_ex_hd [of "lines_of (traits_sentence x)" is_traits_sentence]
      lines_of_not_Nil [of "traits_sentence x"] traits_sentence_first_line [of x]
    by (simp add: list_ex_filter)
  then have "filter is_traits_sentence ?T \<noteq> [] \<longleftrightarrow> ts \<noteq> []" by simp
  then have ex: "list_ex is_traits_sentence (lines_of ?out) \<longleftrightarrow> ts \<noteq> []"
    unfolding list_ex_filter f .
  have whole: "?out
            = join_str [CHR 0x0A] persona_sentences
              @ [CHR 0x0A] @ ?A
              @ (if ts = [] then []
                 else [CHR 0x0A] @ traits_intro @ join_str '', '' ts @ traits_outro)
              @ (if strip ch = [] then [] else [CHR 0x0A] @ challenges_sentence (strip ch))
              @ [CHR 0x0A] @ safety_sentence"
    using ne
    by (simp only: create_system_prompt_text [of age ts ch] traits_sentence_def)
       (simp split: option.splits)
  have one: "filter is_traits_sentence (lines_of ?out)
              = (if ts = [] then [] else [traits_sentence (join_str '', '' ts)])"
    if "\<forall>t \<in> set ts. CHR 0x0A \<notin> set t"
  proof -
    from that have "CHR 0x0A \<notin> set (join_str '', '' ts)" by (rule join_str_newline_free)
    then have "CHR 0x0A \<notin> set (traits_sentence (join_str '', '' ts))"
      by (simp add: traits_sentence_def fixed_text_newline_free)
    then have "lines_of (traits_sentence (join_str '', '' ts))
        = [traits_sentence (join_str '', '' ts)]"
      by (rule lines_of_newline_free)
    then show ?thesis unfolding f by (simp add: is_traits_sentence_simps)
  qed
  have order: "map (\<lambda>l. split_comma_space (listed_traits l))
              (filter is_traits_sentence (lines_of ?out)) = [ts]"
    if "ts \<noteq> []" "\<forall>t \<in> set ts. CHR 0x0A \<notin> set t \<and> CHR '','' \<notin> set t"
  proof -
    from that(2) have "\<forall>t \<in> set ts. CHR 0x0A \<notin> set t" and c: "\<forall>t \<in> set ts. CHR '','' \<notin> set t"
      by blast+
    then have "filter is_traits_sentence (lines_of ?out) = [traits_sentence (join_str '', '' ts)]"
      using one that(1) by simp
    then show ?thesis
      using that(1) c by (simp add: listed_traits_sentence split_join_comma_space)
  qed
  from ex whole one order show ?thesis by blast
qed

theorem traits_sentence_iff_nonempty_witness:
  "filter is_traits_sentence
     (lines_of (create_system_prompt (Some ''Toddler (1-3 years)'')
                 [''Shy / Cautious'', ''Active / Energetic'']
                 ('' naps and'' @ [CHR 0x0A] @ ''tantrums'')))
     = [''The child's temperament is described as: Shy / Cautious, Active / Energetic. Keep these traits in mind when suggesting communication styles, activities, and discipline strategies.'']
   \<and> map (\<lambda>l. split_comma_space (listed_traits l))
        (filter is_traits_sentence
          (lines_of (create_system_prompt (Some ''Toddler (1-3 years)'')
                      [''Shy / Cautious'', ''Active / Energetic'']
                      ('' naps and'' @ [CHR 0x0A] @ ''tantrums''))))
     = [[''Shy / Cautious'', ''Active / Energetic'']]
   \<and> \<not> list_ex is_traits_sentence
          (lines_of (create_system_prompt (Some ''Toddler (1-3 years)'') []
                      ('' naps and'' @ [CHR 0x0A] @ ''tantrums'')))"
proof -
  let ?ch = "'' naps and'' @ [CHR 0x0A] @ ''tantrums''"
  have h1: "Some ''Toddler (1-3 years)'' \<in> set (None # map Some age_options)"
    by (simp add: age_options_def)
  have s: "strip ?ch = ''naps and'' @ [CHR 0x0A] @ ''tantrums''"
    by (simp add: strip_def lstrip_def rstrip_def isspace_def)
  have l: "lines_of (''naps and'' @ [CHR 0x0A] @ ''tantrums'') = [''naps and'', ''tantrums'']"
    by (rule two_lines) simp_all
  have h2: "\<forall>l \<in> set (tl (lines_of (strip ?ch))). \<not> is_traits_sentence l"
    unfolding s l by (simp add: is_traits_sentence_def traits_intro_def)
  note two = traits_sentence_iff_nonempty
               [OF h1 h2, of "[''Shy / Cautious'', ''Active / Energetic'']"]
  note none = traits_sentence_iff_nonempty [OF h1 h2, of "[]"]
  have lit: "traits_sentence (join_str '', '' [''Shy / Cautious'', ''Active / Energetic''])
      = ''The child's temperament is described as: Shy / Cautious, Active / Energetic. Keep these traits in mind when suggesting communication styles, activities, and discipline strategies.''"
    by (simp add: traits_sentence_def traits_intro_def traits_outro_def)
  from two [THEN conjunct2, THEN conjunct2, THEN conjunct1]
  have a: "filter is_traits_sentence
     (lines_of (create_system_prompt (Some ''Toddler (1-3 years)'')
                 [''Shy / Cautious'', ''Active / Energetic''] ?ch))
     = [traits_sentence (join_str '', '' [''Shy / Cautious'', ''Active / Energetic''])]"
    by simp
  from two [THEN conjunct2, THEN conjunct2, THEN conjunct2]
  have b: "map (\<lambda>l. split_comma_space (listed_traits l))
        (filter is_traits_sentence
          (lines_of (create_system_prompt (Some ''Toddler (1-3 years)'')
                      [''Shy / Cautious'', ''Active / Energetic''] ?ch)))
     = [[''Shy / Cautious'', ''Active / Energetic'']]"
    by simp
  from none [THEN conjunct1]
  have c: "\<not> list_ex is_traits_sentence
          (lines_of (create_system_prompt (Some ''Toddler (1-3 years)'') [] ?ch))"
    by simp
  from a [unfolded lit] b c show ?thesis by (intro conjI)
qed

text \<open>
  C3, as the claim states it, for every challenges text: with no traits and a challenges
  text of three lines whose second line is a traits sentence, the text returned has that
  traits sentence as a line of its own.
\<close>

theorem traits_sentence_injected_counterexample:
  "traits_sentence ''Shy / Cautious''
       \<in> set (lines_of (create_system_prompt (Some ''Not specified'') []
                 (''Help'' @ [CHR 0x0A] @ traits_sentence ''Shy / Cautious''
                  @ [CHR 0x0A] @ ''Thanks'')))
   \<and> list_ex is_traits_sentence
        (lines_of (create_system_prompt (Some ''Not specified'') []
                 (''Help'' @ [CHR 0x0A] @ traits_sentence ''Shy / Cautious''
                  @ [CHR 0x0A] @ ''Thanks'')))"
proof -
  let ?ch = "''Help'' @ [CHR 0x0A] @ traits_sentence ''Shy / Cautious'' @ [CHR 0x0A] @ ''Thanks''"
  have dom: "Some ''Not specified'' \<in> set (None # map Some age_options)"
    by (simp add: age_options_def)
  have s: "strip ?ch = ?ch"
    by (rule strip_unchanged) (simp_all add: isspace_def)
  have nf: "CHR 0x0A \<notin> set (traits_sentence ''Shy / Cautious'')"
    by (simp add: traits_sentence_def fixed_text_newline_free)
  have l: "lines_of ?ch = [''Help'', traits_sentence ''Shy / Cautious'', ''Thanks'']"
    by (rule three_lines) (simp_all add: nf)
  have w: "lines_of (challenges_sentence ?ch)
      = [challenges_intro @ ''Help'', traits_sentence ''Shy / Cautious'',
         ''Thanks'' @ challenges_outro]"
    unfolding challenges_sentence_def wrapped_lines_tail [OF fixed_text_newline_free(5,6)] l
    by simp
  have ne: "?ch \<noteq> []" by simp
  have lines: "lines_of (create_system_prompt (Some ''Not specified'') [] ?ch)
      = persona_sentences @ [fallback_sentence]
        @ [challenges_intro @ ''Help'', traits_sentence ''Shy / Cautious'',
           ''Thanks'' @ challenges_outro]
        @ [safety_sentence]"
    unfolding lines_of_prompt [OF dom] s w using ne by simp
  have a: "traits_sentence ''Shy / Cautious''
       \<in> set (lines_of (create_system_prompt (Some ''Not specified'') [] ?ch))"
    unfolding lines by simp
  have b: "list_ex is_traits_sentence
        (lines_of (create_system_prompt (Some ''Not specified'') [] ?ch))"
    unfolding lines by (simp add: is_traits_sentence_simps)
  from a b show ?thesis by (intro conjI)
qed



section \<open>The claims about a chat turn\<close>

text \<open>
  C6. A chat turn, in a session whose form is completed and whose client is set, with a
  non-empty input, in which the call to the completion service raises: afterwards the
  session state is the state before with the user message appended and nothing else
  changed, so that message is the last of the transcript and no assistant message has
  been added; the page shows one error, with the text of the exception; the service was
  called once. A run that follows without input calls the service not at all, and a run
  that follows with a new input calls it once, on the transcript that holds both user
  messages.
\<close>

theorem failed_turn_keeps_user_message:
  assumes "form_completed s" and "client s = Some c" and "p \<noteq> []"
    and "completions_create e c
           (completion_request (messages s @ [\<lparr>role = ''user'', content = p\<rparr>]) DEFAULT_MODEL)
         = Raises err"
  shows "state (script e (ChatInput p) (Some s))
           = s\<lparr>messages := messages s @ [\<lparr>role = ''user'', content = p\<rparr>]\<rparr>
       \<and> last (messages (state (script e (ChatInput p) (Some s))))
           = \<lparr>role = ''user'', content = p\<rparr>
       \<and> filter is_error (shown (script e (ChatInput p) (Some s)))
           = [Error (''An error occurred while communicating with Groq: '' @ err)]
       \<and> sent (script e (ChatInput p) (Some s))
           = [completion_request (messages s @ [\<lparr>role = ''user'', content = p\<rparr>]) DEFAULT_MODEL]
       \<and> ending (script e (ChatInput p) (Some s)) = Completed
       \<and> sent (script e' NoInteraction (Some (state (script e (ChatInput p) (Some s))))) = []
       \<and> state (script e' NoInteraction (Some (state (script e (ChatInput p) (Some s)))))
           = state (script e (ChatInput p) (Some s))
       \<and> (p' \<noteq> [] \<longrightarrow>
            sent (script e' (ChatInput p') (Some (state (script e (ChatInput p) (Some s)))))
              = [completion_request
                   (messages s @ [\<lparr>role = ''user'', content = p\<rparr>, \<lparr>role = ''user'', content = p'\<rparr>])
                   DEFAULT_MODEL])"
proof -
  let ?s1 = "s\<lparr>messages := messages s @ [\<lparr>role = ''user'', content = p\<rparr>]\<rparr>"
  have run: "script e (ChatInput p) (Some s) =
      \<lparr>state = ?s1,
       shown = [Caption (''Context: '' @ context_summary s),
                Caption (''Powered by Groq ('' @ DEFAULT_MODEL @ '')'')]
               @ show_history (messages s)
               @ [ChatMessage ''user'' p,
                  Error (''An error occurred while communicating with Groq: '' @ err)],
       sent = [completion_request (messages s @ [\<lparr>role = ''user'', content = p\<rparr>]) DEFAULT_MODEL],
       ending = Completed\<rparr>"
    using assms by (simp add: chat_turn handle_user_input_raises)
  have fc: "form_completed ?s1" and cl: "client ?s1 = Some c"
    using assms by simp_all
  have idle: "script e' NoInteraction (Some ?s1) =
      \<lparr>state = ?s1,
       shown = [Caption (''Context: '' @ context_summary ?s1),
                Caption (''Powered by Groq ('' @ DEFAULT_MODEL @ '')'')]
               @ show_history (messages ?s1),
       sent = [], ending = Completed\<rparr>"
    using fc cl
    by (simp add: script_chat chat_interface_def chat_setup_ready chat_body_def)
  have again: "sent (script e' (ChatInput p') (Some ?s1))
      = [completion_request
           (messages s @ [\<lparr>role = ''user'', content = p\<rparr>, \<lparr>role = ''user'', content = p'\<rparr>])
           DEFAULT_MODEL]" if "p' \<noteq> []"
    using chat_turn [OF fc cl that, of e'] handle_user_input_sent [of e' c p' ?s1]
    by (simp split: prod.splits)
  show ?thesis
    unfolding run using idle again by (simp add: is_error_show_history)
qed


theorem failed_turn_keeps_user_message_witness:
  "messages (state (script
      \<lparr>environ_key = Some ''k'', st_secrets = SecretsFile None, models_list = (\<lambda>c. None),
       completions_create = (\<lambda>c r. Raises ''timed out'')\<rparr>
      (ChatInput ''How do I handle tantrums?'')
      (Some \<lparr>form_completed = True, child_age = Some ''Not specified'', child_temperament = [],
             current_challenges = [],
             messages = [\<lparr>role = ''system'', content = ''S''\<rparr>, \<lparr>role = ''assistant'', content = ''W''\<rparr>],
             client = Some (Groq ''k'')\<rparr>)))
     = [\<lparr>role = ''system'', content = ''S''\<rparr>, \<lparr>role = ''assistant'', content = ''W''\<rparr>,
        \<lparr>role = ''user'', content = ''How do I handle tantrums?''\<rparr>]
   \<and> filter is_error (shown (script
      \<lparr>environ_key = Some ''k'', st_secrets = SecretsFile None, models_list = (\<lambda>c. None),
       completions_create = (\<lambda>c r. Raises ''timed out'')\<rparr>
      (ChatInput ''How do I handle tantrums?'')
      (Some \<lparr>form_completed = True, child_age = Some ''Not specified'', child_temperament = [],
             current_challenges = [],
             messages = [\<lparr>role = ''system'', content = ''S''\<rparr>, \<lparr>role = ''assistant'', content = ''W''\<rparr>],
             client = Some (Groq ''k'')\<rparr>)))
     = [Error ''An error occurred while communicating with Groq: timed out'']"
proof -
  let ?e = "\<lparr>environ_key = Some ''k'', st_secrets = SecretsFile None, models_list = (\<lambda>c. None),
       completions_create = (\<lambda>c r. Raises ''timed out'')\<rparr>"
  let ?s = "\<lparr>form_completed = True, child_age = Some ''Not specified'', child_temperament = [],
             current_challenges = [],
             messages = [\<lparr>role = ''system'', content = ''S''\<rparr>, \<lparr>role = ''assistant'', content = ''W''\<rparr>],
             client = Some (Groq ''k'')\<rparr>"
  have h1: "form_completed ?s" by simp
  have h2: "client ?s = Some (Groq ''k'')" by simp
  have h3: "''How do I handle tantrums?'' \<noteq> []" by simp
  have h4: "completions_create ?e (Groq ''k'')
           (completion_request (messages ?s @ [\<lparr>role = ''user'', content = ''How do I handle tantrums?''\<rparr>])
              DEFAULT_MODEL)
         = Raises ''timed out''" by simp
  note t = failed_turn_keeps_user_message [OF h1 h2 h3 h4]
  from t [THEN conjunct1] have a: "messages (state (script ?e (ChatInput ''How do I handle tantrums?'') (Some ?s)))
     = [\<lparr>role = ''system'', content = ''S''\<rparr>, \<lparr>role = ''assistant'', content = ''W''\<rparr>,
        \<lparr>role = ''user'', content = ''How do I handle tantrums?''\<rparr>]"
    by simp
  from t [THEN conjunct2, THEN conjunct2, THEN conjunct1]
  have b: "filter is_error (shown (script ?e (ChatInput ''How do I handle tantrums?'') (Some ?s)))
     = [Error ''An error occurred while communicating with Groq: timed out'']"
    by simp
  from a b show ?thesis by (rule conjI)
qed

text \<open>
  C9. A chat turn, in a session whose form is completed and whose client is set, with a
  non-empty input, in which the call to the completion service returns with no content
  or with the empty string: afterwards the session state is the state before with the user
  message appended and nothing else changed, so that message is the last of the transcript
  and no assistant message has been added; the page shows the captions, the history and
  the user message, and no error; the run ends as any other.
\<close>

theorem empty_response_is_silent:
  assumes "form_completed s" and "client s = Some c" and "p \<noteq> []"
    and "completions_create e c
           (completion_request (messages s @ [\<lparr>role = ''user'', content = p\<rparr>]) DEFAULT_MODEL)
         = Returns r"
    and "r = None \<or> r = Some []"
  shows "state (script e (ChatInput p) (Some s))
           = s\<lparr>messages := messages s @ [\<lparr>role = ''user'', content = p\<rparr>]\<rparr>
       \<and> last (messages (state (script e (ChatInput p) (Some s))))
           = \<lparr>role = ''user'', content = p\<rparr>
       \<and> filter is_error (shown (script e (ChatInput p) (Some s))) = []
       \<and> shown (script e (ChatInput p) (Some s))
           = [Caption (''Context: '' @ context_summary s),
              Caption (''Powered by Groq ('' @ DEFAULT_MODEL @ '')'')]
             @ show_history (messages s) @ [ChatMessage ''user'' p]
       \<and> ending (script e (ChatInput p) (Some s)) = Completed"
proof -
  have "script e (ChatInput p) (Some s) =
      \<lparr>state = s\<lparr>messages := messages s @ [\<lparr>role = ''user'', content = p\<rparr>]\<rparr>,
       shown = [Caption (''Context: '' @ context_summary s),
                Caption (''Powered by Groq ('' @ DEFAULT_MODEL @ '')'')]
               @ show_history (messages s) @ [ChatMessage ''user'' p],
       sent = [completion_request (messages s @ [\<lparr>role = ''user'', content = p\<rparr>]) DEFAULT_MODEL],
       ending = Completed\<rparr>"
    using assms by (auto simp add: chat_turn handle_user_input_returns)
  then show ?thesis by (simp add: is_error_show_history)
qed

theorem empty_response_is_silent_witness:
  "messages (state (script
      \<lparr>environ_key = Some ''k'', st_secrets = SecretsFile None, models_list = (\<lambda>c. None),
       completions_create = (\<lambda>c r. Returns (Some []))\<rparr>
      (ChatInput ''How do I handle tantrums?'')
      (Some \<lparr>form_completed = True, child_age = Some ''Not specified'', child_temperament = [],
             current_challenges = [],
             messages = [\<lparr>role = ''system'', content = ''S''\<rparr>, \<lparr>role = ''assistant'', content = ''W''\<rparr>],
             client = Some (Groq ''k'')\<rparr>)))
     = [\<lparr>role = ''system'', content = ''S''\<rparr>, \<lparr>role = ''assistant'', content = ''W''\<rparr>,
        \<lparr>role = ''user'', content = ''How do I handle tantrums?''\<rparr>]
   \<and> filter is_error (shown (script
      \<lparr>environ_key = Some ''k'', st_secrets = SecretsFile None, models_list = (\<lambda>c. None),
       completions_create = (\<lambda>c r. Returns (Some []))\<rparr>
      (ChatInput ''How do I handle tantrums?'')
      (Some \<lparr>form_completed = True, child_age = Some ''Not specified'', child_temperament = [],
             current_challenges = [],
             messages = [\<lparr>role = ''system'', content = ''S''\<rparr>, \<lparr>role = ''assistant'', content = ''W''\<rparr>],
             client = Some (Groq ''k'')\<rparr>)))
     = []"
proof -
  let ?e = "\<lparr>environ_key = Some ''k'', st_secrets = SecretsFile None, models_list = (\<lambda>c. None),
       completions_create = (\<lambda>c r. Returns (Some []))\<rparr>"
  let ?s = "\<lparr>form_completed = True, child_age = Some ''Not specified'', child_temperament = [],
             current_challenges = [],
             messages = [\<lparr>role = ''system'', content = ''S''\<rparr>, \<lparr>role = ''assistant'', content = ''W''\<rparr>],
             client = Some (Groq ''k'')\<rparr>"
  have h1: "form_completed ?s" by simp
  have h2: "client ?s = Some (Groq ''k'')" by simp
  have h3: "''How do I handle tantrums?'' \<noteq> []" by simp
  have h4: "completions_create ?e (Groq ''k'')
           (completion_request (messages ?s @ [\<lparr>role = ''user'', content = ''How do I handle tantrums?''\<rparr>])
              DEFAULT_MODEL)
         = Returns (Some [])" by simp
  have h5: "Some [] = None \<or> Some ([]::string) = Some []" by simp
  note t = empty_response_is_silent [OF h1 h2 h3 h4 h5]
  from t [THEN conjunct1] have a: "messages (state (script ?e (ChatInput ''How do I handle tantrums?'') (Some ?s)))
     = [\<lparr>role = ''system'', content = ''S''\<rparr>, \<lparr>role = ''assistant'', content = ''W''\<rparr>,
        \<lparr>role = ''user'', content = ''How do I handle tantrums?''\<rparr>]"
    by simp
  from t [THEN conjunct2, THEN conjunct2, THEN conjunct1]
  have b: "filter is_error (shown (script ?e (ChatInput ''How do I handle tantrums?'') (Some ?s))) = []" .
  from a b show ?thesis by (rule conjI)
qed


text \<open>
  C10. Every call a run of the script makes to the completion service has
  \<open>max_tokens = 1500\<close>, \<open>temperature = 0.7\<close>, \<open>top_p = 1\<close>, no stop sequence, no streaming
  and the default model, whatever the surroundings, the event and the stored state. In a
  chat turn (form completed, client set, non-empty input) there is one call, and its
  messages are the whole transcript: the messages stored before, the system message
  included, and the user message of this turn.
\<close>

theorem request_constants:
  "list_all (\<lambda>r. max_tokens r = 1500 \<and> temperature r = 7 / 10 \<and> top_p r = 1 \<and> stop r = None
                 \<and> stream r = False \<and> req_model r = ''llama3-8b-8192'')
            (sent (script e ev store))
   \<and> (form_completed s \<and> client s = Some c \<and> p \<noteq> [] \<longrightarrow>
        sent (script e (ChatInput p) (Some s))
          = [\<lparr>req_messages = messages s @ [\<lparr>role = ''user'', content = p\<rparr>],
              req_model = ''llama3-8b-8192'', temperature = 7 / 10, max_tokens = 1500,
              top_p = 1, stop = None, stream = False\<rparr>])"
proof -
  have a: "list_all (\<lambda>r. max_tokens r = 1500 \<and> temperature r = 7 / 10 \<and> top_p r = 1 \<and> stop r = None
                 \<and> stream r = False \<and> req_model r = ''llama3-8b-8192'')
            (sent (script e ev store))"
    using script_sent [of e ev store]
    by (auto simp add: completion_request_def DEFAULT_MODEL_def)
  have b: "sent (script e (ChatInput p) (Some s))
          = [\<lparr>req_messages = messages s @ [\<lparr>role = ''user'', content = p\<rparr>],
              req_model = ''llama3-8b-8192'', temperature = 7 / 10, max_tokens = 1500,
              top_p = 1, stop = None, stream = False\<rparr>]"
    if "form_completed s" "client s = Some c" "p \<noteq> []"
    using chat_turn [OF that, of e] handle_user_input_sent [of e c p s]
    by (simp add: completion_request_def DEFAULT_MODEL_def split: prod.splits)
  from a b show ?thesis by blast
qed

theorem request_constants_witness:
  "sent (script
      \<lparr>environ_key = Some ''k'', st_secrets = SecretsFile None, models_list = (\<lambda>c. None),
       completions_create = (\<lambda>c r. Returns (Some ''Try staying calm...''))\<rparr>
      (ChatInput ''How do I handle tantrums?'')
      (Some \<lparr>form_completed = True, child_age = Some ''Not specified'', child_temperament = [],
             current_challenges = [],
             messages = [\<lparr>role = ''system'', content = ''S''\<rparr>, \<lparr>role = ''assistant'', content = ''W''\<rparr>],
             client = Some (Groq ''k'')\<rparr>))
     = [\<lparr>req_messages = [\<lparr>role = ''system'', content = ''S''\<rparr>, \<lparr>role = ''assistant'', content = ''W''\<rparr>,
                         \<lparr>role = ''user'', content = ''How do I handle tantrums?''\<rparr>],
         req_model = ''llama3-8b-8192'', temperature = 7 / 10, max_tokens = 1500,
         top_p = 1, stop = None, stream = False\<rparr>]"
  using request_constants
    [of "\<lparr>environ_key = Some ''k'', st_secrets = SecretsFile None, models_list = (\<lambda>c. None),
          completions_create = (\<lambda>c r. Returns (Some ''Try staying calm...''))\<rparr>"
        NoInteraction None
        "\<lparr>form_completed = True, child_age = Some ''Not specified'', child_temperament = [],
             current_challenges = [],
             messages = [\<lparr>role = ''system'', content = ''S''\<rparr>, \<lparr>role = ''assistant'', content = ''W''\<rparr>],
             client = Some (Groq ''k'')\<rparr>"
        "Groq ''k''" "''How do I handle tantrums?''", THEN conjunct2]
  by simp

section \<open>The claims about the session\<close>

text \<open>
  C7. In every session state that some sequence of runs of the script leaves behind, an
  uncompleted form means an empty transcript and no client. The assignments under the
  reset button give, from any state, the state with the form uncompleted, no age, no
  traits, empty challenges text, empty transcript and no client; a run set off by the
  reset button, in a session whose form is completed and whose set-up does not stop the
  run, leaves exactly that state and asks for a rerun.
\<close>

theorem reset_and_form_invariant:
  "(reachable s \<longrightarrow> \<not> form_completed s \<longrightarrow> messages s = [] \<and> client s = None)
   \<and> reset_session s' =
        \<lparr>form_completed = False, child_age = None, child_temperament = [],
         current_challenges = [], messages = [], client = None\<rparr>
   \<and> (form_completed s' \<and> fst (chat_setup e s') \<noteq> Stopped \<longrightarrow>
        state (script e ResetClick (Some s')) =
          \<lparr>form_completed = False, child_age = None, child_temperament = [],
           current_challenges = [], messages = [], client = None\<rparr>
        \<and> ending (script e ResetClick (Some s')) = RerunRequested)"
proof -
  have a: "reachable s \<longrightarrow> \<not> form_completed s \<longrightarrow> messages s = [] \<and> client s = None"
    using reachable_invariant by blast
  have b: "reset_session s' =
        \<lparr>form_completed = False, child_age = None, child_temperament = [],
         current_challenges = [], messages = [], client = None\<rparr>"
    by (simp add: reset_session_def)
  have c: "state (script e ResetClick (Some s')) =
          \<lparr>form_completed = False, child_age = None, child_temperament = [],
           current_challenges = [], messages = [], client = None\<rparr>
        \<and> ending (script e ResetClick (Some s')) = RerunRequested"
    if "form_completed s'" "fst (chat_setup e s') \<noteq> Stopped"
  proof -
    obtain r out1 where cs: "chat_setup e s' = (r, out1)" by (cases "chat_setup e s'") auto
    with that(2) obtain s1 where r: "r = Returned s1" by (cases r) auto
    obtain s2 out2 reqs where cb: "chat_body e ResetClick s1 = (s2, out2, reqs)"
      by (cases "chat_body e ResetClick s1") auto
    from that(1) cs r cb show ?thesis
      by (simp add: script_chat chat_interface_def reset_session_def)
  qed
  from a b c show ?thesis by blast
qed

theorem reset_and_form_invariant_witness:
  "reachable (state (script
      \<lparr>environ_key = Some ''k'', st_secrets = SecretsFile None, models_list = (\<lambda>c. None),
       completions_create = (\<lambda>c r. Returns (Some ''Try staying calm...''))\<rparr>
      NoInteraction None))
   \<and> \<not> form_completed (state (script
      \<lparr>environ_key = Some ''k'', st_secrets = SecretsFile None, models_list = (\<lambda>c. None),
       completions_create = (\<lambda>c r. Returns (Some ''Try staying calm...''))\<rparr>
      NoInteraction None))
   \<and> messages (state (script
      \<lparr>environ_key = Some ''k'', st_secrets = SecretsFile None, models_list = (\<lambda>c. None),
       completions_create = (\<lambda>c r. Returns (Some ''Try staying calm...''))\<rparr>
      NoInteraction None)) = []
   \<and> client (state (script
      \<lparr>environ_key = Some ''k'', st_secrets = SecretsFile None, models_list = (\<lambda>c. None),
       completions_create = (\<lambda>c r. Returns (Some ''Try staying calm...''))\<rparr>
      NoInteraction None)) = None
   \<and> state (script
      \<lparr>environ_key = Some ''k'', st_secrets = SecretsFile None, models_list = (\<lambda>c. None),
       completions_create = (\<lambda>c r. Returns (Some ''Try staying calm...''))\<rparr>
      ResetClick
      (Some \<lparr>form_completed = True, child_age = Some ''Toddler (1-3 years)'',
             child_temperament = [''Shy / Cautious''], current_challenges = ''naps'',
             messages = [\<lparr>role = ''system'', content = ''S''\<rparr>, \<lparr>role = ''assistant'', content = ''W''\<rparr>,
                         \<lparr>role = ''user'', content = ''How do I handle tantrums?''\<rparr>],
             client = Some (Groq ''k'')\<rparr>))
     = \<lparr>form_completed = False, child_age = None, child_temperament = [],
         current_challenges = [], messages = [], client = None\<rparr>"
proof -
  let ?e = "\<lparr>environ_key = Some ''k'', st_secrets = SecretsFile None, models_list = (\<lambda>c. None),
       completions_create = (\<lambda>c r. Returns (Some ''Try staying calm...''))\<rparr>"
  let ?s = "state (script ?e NoInteraction None)"
  let ?s' = "\<lparr>form_completed = True, child_age = Some ''Toddler (1-3 years)'',
             child_temperament = [''Shy / Cautious''], current_challenges = ''naps'',
             messages = [\<lparr>role = ''system'', content = ''S''\<rparr>, \<lparr>role = ''assistant'', content = ''W''\<rparr>,
                         \<lparr>role = ''user'', content = ''How do I handle tantrums?''\<rparr>],
             client = Some (Groq ''k'')\<rparr>"
  note t = reset_and_form_invariant [of ?s ?s' ?e]
  have r: "reachable ?s" by (rule reachable.first_run)
  have f: "\<not> form_completed ?s" by (simp add: script_def initial_state_def form_page_def)
  from t [THEN conjunct1] r f have m: "messages ?s = [] \<and> client ?s = None" by blast
  have h: "form_completed ?s' \<and> fst (chat_setup ?e ?s') \<noteq> Stopped"
    by (simp add: chat_setup_def)
  from t [THEN conjunct2, THEN conjunct2] h
  have x: "state (script ?e ResetClick (Some ?s')) =
          \<lparr>form_completed = False, child_age = None, child_temperament = [],
           current_challenges = [], messages = [], client = None\<rparr>"
    by blast
  from r f m x show ?thesis by blast
qed


text \<open>
  C8. From a session state left behind by runs of the script in which the form is not
  completed, the form is submitted with an age range of its list, any traits and any
  challenges text, and in the run that follows the client is acquired. That run leaves a
  transcript of exactly two messages. The first has role \<open>system\<close> and the text
  \<open>create_system_prompt\<close> gives for the three submitted values. The second has role
  \<open>assistant\<close>; its text is the single-space join of the parts, which is the following
  concatenation, in this order: the greeting; the age clause, if the age range is not
  \<open>Not specified\<close>; the temperament clause, if there are traits, which holds the traits
  in lower case joined by a comma and a space; the period; the challenges clause, if the
  stripped challenges text is not empty, which holds the stripped text; the closing
  question.
\<close>

theorem first_arrival_transcript:
  assumes "reachable s0" and "\<not> form_completed s0"
    and "a \<in> set age_options"
    and "fst (initialize_groq_client e') = Returned c"
  shows "messages (state (script e' NoInteraction
                     (Some (state (script e (FormSubmit a ts ch) (Some s0))))))
           = [\<lparr>role = ''system'', content = create_system_prompt (Some a) ts ch\<rparr>,
              \<lparr>role = ''assistant'',
               content = join_str '' ''
                 ([''Hello! I'm ready to help with parenting tips'']
                  @ (if a \<noteq> ''Not specified'' then [''for your '' @ lower a] else [])
                  @ (if ts \<noteq> [] then ['' (described as '' @ lower (join_str '', '' ts) @ '')'']
                     else [])
                  @ [''.'']
                  @ (if strip ch \<noteq> []
                     then ['' I see you're interested in '' @ [CHR 0x27] @ strip ch
                             @ [CHR 0x27] @ ''.'']
                     else [])
                  @ ['' How can I assist you today?''])\<rparr>]
       \<and> join_str '' ''
             ([''Hello! I'm ready to help with parenting tips'']
              @ (if a \<noteq> ''Not specified'' then [''for your '' @ lower a] else [])
              @ (if ts \<noteq> [] then ['' (described as '' @ lower (join_str '', '' ts) @ '')'']
                 else [])
              @ [''.'']
              @ (if strip ch \<noteq> []
                 then ['' I see you're interested in '' @ [CHR 0x27] @ strip ch
                         @ [CHR 0x27] @ ''.'']
                 else [])
              @ ['' How can I assist you today?''])
           = ''Hello! I'm ready to help with parenting tips''
             @ (if a \<noteq> ''Not specified'' then '' for your '' @ lower a else [])
             @ (if ts \<noteq> [] then ''  (described as '' @ join_str '', '' (map lower ts) @ '')''
                else [])
             @ '' .''
             @ (if strip ch \<noteq> []
                then ''  I see you're interested in '' @ [CHR 0x27] @ strip ch @ [CHR 0x27] @ ''.''
                else [])
             @ ''  How can I assist you today?''
       \<and> client (state (script e' NoInteraction
                     (Some (state (script e (FormSubmit a ts ch) (Some s0)))))) = Some c
       \<and> ending (script e (FormSubmit a ts ch) (Some s0)) = RerunRequested"
proof -
  let ?s1 = "s0\<lparr>child_age := Some a, child_temperament := ts, current_challenges := ch,
                 form_completed := True\<rparr>"
  from assms(1,2) have empty: "messages s0 = []" "client s0 = None"
    using reachable_invariant by blast+
  have submit: "state (script e (FormSubmit a ts ch) (Some s0)) = ?s1"
    and rerun: "ending (script e (FormSubmit a ts ch) (Some s0)) = RerunRequested"
    using assms(2) by (simp_all add: form_submit_run)
  have ne: "a \<noteq> []" using assms(3) by (rule age_options_nonempty)
  have blank: "(ch \<noteq> [] \<and> strip ch \<noteq> []) = (strip ch \<noteq> [])"
    using strip_Nil by auto
  have parts: "welcome_message_parts ?s1 =
                 [''Hello! I'm ready to help with parenting tips'']
                  @ (if a \<noteq> ''Not specified'' then [''for your '' @ lower a] else [])
                  @ (if ts \<noteq> [] then ['' (described as '' @ lower (join_str '', '' ts) @ '')'']
                     else [])
                  @ [''.'']
                  @ (if strip ch \<noteq> []
                     then ['' I see you're interested in '' @ [CHR 0x27] @ strip ch
                             @ [CHR 0x27] @ ''.'']
                     else [])
                  @ ['' How can I assist you today?'']"
    using ne by (simp add: welcome_message_parts_def not_specified_def blank)
  have arrive: "state (script e' NoInteraction (Some ?s1)) =
      ?s1\<lparr>client := Some c,
          messages :=
            [\<lparr>role = ''system'',
              content = create_system_prompt (child_age ?s1) (child_temperament ?s1)
                          (current_challenges ?s1)\<rparr>,
             \<lparr>role = ''assistant'', content = join_str '' '' (welcome_message_parts ?s1)\<rparr>]\<rparr>"
    using empty assms(4) by (intro first_arrival_run) simp_all
  have msgs: "messages (state (script e' NoInteraction
                     (Some (state (script e (FormSubmit a ts ch) (Some s0))))))
           = [\<lparr>role = ''system'', content = create_system_prompt (Some a) ts ch\<rparr>,
              \<lparr>role = ''assistant'', content = join_str '' '' (welcome_message_parts ?s1)\<rparr>]"
    unfolding submit arrive by simp
  have cl: "client (state (script e' NoInteraction
                     (Some (state (script e (FormSubmit a ts ch) (Some s0)))))) = Some c"
    unfolding submit arrive by simp
  have low: "lower (join_str '', '' ts) = join_str '', '' (map lower ts)"
    by (simp add: lower_join_str lower_comma_space)
  have flat: "join_str '' ''
             ([''Hello! I'm ready to help with parenting tips'']
              @ (if a \<noteq> ''Not specified'' then [''for your '' @ lower a] else [])
              @ (if ts \<noteq> [] then ['' (described as '' @ lower (join_str '', '' ts) @ '')'']
                 else [])
              @ [''.'']
              @ (if strip ch \<noteq> []
                 then ['' I see you're interested in '' @ [CHR 0x27] @ strip ch
                         @ [CHR 0x27] @ ''.'']
                 else [])
              @ ['' How can I assist you today?''])
           = ''Hello! I'm ready to help with parenting tips''
             @ (if a \<noteq> ''Not specified'' then '' for your '' @ lower a else [])
             @ (if ts \<noteq> [] then ''  (described as '' @ join_str '', '' (map lower ts) @ '')''
                else [])
             @ '' .''
             @ (if strip ch \<noteq> []
                then ''  I see you're interested in '' @ [CHR 0x27] @ strip ch @ [CHR 0x27] @ ''.''
                else [])
             @ ''  How can I assist you today?''"
    unfolding low by (simp add: join_str_Cons del: join_str.simps)
  from msgs [unfolded parts] flat cl rerun show ?thesis by (intro conjI)
qed


theorem first_arrival_transcript_witness:
  "messages (state (script
      \<lparr>environ_key = Some ''k'', st_secrets = SecretsFile None, models_list = (\<lambda>c. None),
       completions_create = (\<lambda>c r. Returns (Some ''Try staying calm...''))\<rparr>
      NoInteraction
      (Some (state (script
        \<lparr>environ_key = Some ''k'', st_secrets = SecretsFile None, models_list = (\<lambda>c. None),
       completions_create = (\<lambda>c r. Returns (Some ''Try staying calm...''))\<rparr>
        (FormSubmit ''Toddler (1-3 years)'' [''Shy / Cautious''] '' naps '')
        (Some (state (script
          \<lparr>environ_key = Some ''k'', st_secrets = SecretsFile None, models_list = (\<lambda>c. None),
       completions_create = (\<lambda>c r. Returns (Some ''Try staying calm...''))\<rparr>
          NoInteraction None))))))))
     = [\<lparr>role = ''system'',
         content = create_system_prompt (Some ''Toddler (1-3 years)'') [''Shy / Cautious''] '' naps ''\<rparr>,
        \<lparr>role = ''assistant'',
         content = ''Hello! I'm ready to help with parenting tips for your toddler (1-3 years)  (described as shy / cautious) .  I see you're interested in ''
                   @ [CHR 0x27] @ ''naps'' @ [CHR 0x27] @ ''.  How can I assist you today?''\<rparr>]
   \<and> client (state (script
      \<lparr>environ_key = Some ''k'', st_secrets = SecretsFile None, models_list = (\<lambda>c. None),
       completions_create = (\<lambda>c r. Returns (Some ''Try staying calm...''))\<rparr>
      NoInteraction
      (Some (state (script
        \<lparr>environ_key = Some ''k'', st_secrets = SecretsFile None, models_list = (\<lambda>c. None),
       completions_create = (\<lambda>c r. Returns (Some ''Try staying calm...''))\<rparr>
        (FormSubmit ''Toddler (1-3 years)'' [''Shy / Cautious''] '' naps '')
        (Some (state (script
          \<lparr>environ_key = Some ''k'', st_secrets = SecretsFile None, models_list = (\<lambda>c. None),
       completions_create = (\<lambda>c r. Returns (Some ''Try staying calm...''))\<rparr>
          NoInteraction None)))))))) = Some (Groq ''k'')"
proof -
  let ?e = "\<lparr>environ_key = Some ''k'', st_secrets = SecretsFile None, models_list = (\<lambda>c. None),
       completions_create = (\<lambda>c r. Returns (Some ''Try staying calm...''))\<rparr>"
  let ?s0 = "state (script ?e NoInteraction None)"
  have h1: "reachable ?s0" by (rule reachable.first_run)
  have h2: "\<not> form_completed ?s0" by (simp add: script_def initial_state_def form_page_def)
  have h3: "''Toddler (1-3 years)'' \<in> set age_options" by (simp add: age_options_def)
  have h4: "fst (initialize_groq_client ?e) = Returned (Groq ''k'')"
    by (simp add: initialize_groq_client_def connect_with_key_def)
  note t = first_arrival_transcript [OF h1 h2 h3 h4, of ?e "[''Shy / Cautious'']" "'' naps ''"]
  have s: "strip '' naps '' = ''naps''"
    by (simp add: strip_def lstrip_def rstrip_def isspace_def)
  have l1: "lower ''Toddler (1-3 years)'' = ''toddler (1-3 years)''"
    by (simp add: lower_def lower_char_def char_of_eq_iff)
  have l2: "map lower [''Shy / Cautious''] = [''shy / cautious'']"
    by (simp add: lower_def lower_char_def char_of_eq_iff)
  from t [THEN conjunct2, THEN conjunct1]
  have c: "join_str '' ''
             ([''Hello! I'm ready to help with parenting tips'']
              @ (if ''Toddler (1-3 years)'' \<noteq> ''Not specified''
                 then [''for your '' @ lower ''Toddler (1-3 years)''] else [])
              @ (if [''Shy / Cautious''] \<noteq> []
                 then ['' (described as '' @ lower (join_str '', '' [''Shy / Cautious'']) @ '')'']
                 else [])
              @ [''.'']
              @ (if strip '' naps '' \<noteq> []
                 then ['' I see you're interested in '' @ [CHR 0x27] @ strip '' naps ''
                         @ [CHR 0x27] @ ''.'']
                 else [])
              @ ['' How can I assist you today?''])
      = ''Hello! I'm ready to help with parenting tips for your toddler (1-3 years)  (described as shy / cautious) .  I see you're interested in ''
                   @ [CHR 0x27] @ ''naps'' @ [CHR 0x27] @ ''.  How can I assist you today?''"
    unfolding s l1 l2 by simp
  from t [THEN conjunct1, unfolded c] t [THEN conjunct2, THEN conjunct2, THEN conjunct1]
  show ?thesis by (rule conjI)
qed


end
